theory Spec2Isabelle
  imports Main
begin

section \<open>Python strings\<close>

text \<open>
  A Python \<open>str\<close> is modelled as a \<open>string\<close>, one \<open>char\<close> per code point, for the
  code points below 256; \<open>length\<close> is Python's \<open>len\<close>.
\<close>

definition isspace :: "char \<Rightarrow> bool" where
  \<comment> \<open>\<open>str.isspace\<close> on one code point: TAB..CR, FS..US, space, NEL, NBSP.\<close>
  "isspace c =
     (let n = (of_char c :: nat)
      in (9 \<le> n \<and> n \<le> 13) \<or> (28 \<le> n \<and> n \<le> 32) \<or> n = 133 \<or> n = 160)"

definition strip :: "string \<Rightarrow> string" where
  \<comment> \<open>\<open>s.strip()\<close>\<close>
  "strip s = rev (dropWhile isspace (rev (dropWhile isspace s)))"

definition uppercase :: string where
  \<comment> \<open>the code points below 256 that \<open>str.lower\<close> changes: A..Z and 0xC0..0xDE but 0xD7\<close>
  "uppercase = ''ABCDEFGHIJKLMNOPQRSTUVWXYZ'' @
     [CHR 0xC0, CHR 0xC1, CHR 0xC2, CHR 0xC3, CHR 0xC4, CHR 0xC5, CHR 0xC6, CHR 0xC7,
      CHR 0xC8, CHR 0xC9, CHR 0xCA, CHR 0xCB, CHR 0xCC, CHR 0xCD, CHR 0xCE, CHR 0xCF,
      CHR 0xD0, CHR 0xD1, CHR 0xD2, CHR 0xD3, CHR 0xD4, CHR 0xD5, CHR 0xD6,
      CHR 0xD8, CHR 0xD9, CHR 0xDA, CHR 0xDB, CHR 0xDC, CHR 0xDD, CHR 0xDE]"

definition lowercase :: string where
  \<comment> \<open>what \<open>str.lower\<close> makes of them, in the same order: a..z and 0xE0..0xFE but 0xF7\<close>
  "lowercase = ''abcdefghijklmnopqrstuvwxyz'' @
     [CHR 0xE0, CHR 0xE1, CHR 0xE2, CHR 0xE3, CHR 0xE4, CHR 0xE5, CHR 0xE6, CHR 0xE7,
      CHR 0xE8, CHR 0xE9, CHR 0xEA, CHR 0xEB, CHR 0xEC, CHR 0xED, CHR 0xEE, CHR 0xEF,
      CHR 0xF0, CHR 0xF1, CHR 0xF2, CHR 0xF3, CHR 0xF4, CHR 0xF5, CHR 0xF6,
      CHR 0xF8, CHR 0xF9, CHR 0xFA, CHR 0xFB, CHR 0xFC, CHR 0xFD, CHR 0xFE]"

definition lower_char :: "char \<Rightarrow> char" where
  "lower_char c = (case map_of (zip uppercase lowercase) c of None \<Rightarrow> c | Some d \<Rightarrow> d)"

definition lower :: "string \<Rightarrow> string" where
  \<comment> \<open>\<open>s.lower()\<close>\<close>
  "lower s = map lower_char s"

fun startswith :: "string \<Rightarrow> string \<Rightarrow> bool" where
  \<comment> \<open>\<open>s.startswith(p)\<close>\<close>
  "startswith s [] = True"
| "startswith [] (p # ps) = False"
| "startswith (c # cs) (p # ps) = (c = p \<and> startswith cs ps)"

fun contains :: "string \<Rightarrow> string \<Rightarrow> bool" where
  \<comment> \<open>\<open>p in s\<close>\<close>
  "contains [] p = (p = [])"
| "contains (c # cs) p = (startswith (c # cs) p \<or> contains cs p)"

fun split_nl :: "string \<Rightarrow> string list" where
  \<comment> \<open>\<open>s.split("\n")\<close>: never the empty list\<close>
  "split_nl [] = [[]]"
| "split_nl (c # cs) =
     (if c = CHR 0x0A then [] # split_nl cs
      else (case split_nl cs of l # ls \<Rightarrow> (c # l) # ls | [] \<Rightarrow> [[c]]))"

fun join_nl :: "string list \<Rightarrow> string" where
  \<comment> \<open>\<open>"\n".join(ls)\<close>\<close>
  "join_nl [] = []"
| "join_nl [l] = l"
| "join_nl (l # ls) = l @ CHR 0x0A # join_nl ls"

fun find_char :: "char \<Rightarrow> string \<Rightarrow> nat option" where
  \<comment> \<open>\<open>s.find(c)\<close>, with \<open>None\<close> for -1\<close>
  "find_char c [] = None"
| "find_char c (x # xs) =
     (if x = c then Some 0 else map_option Suc (find_char c xs))"

definition rfind_char :: "char \<Rightarrow> string \<Rightarrow> nat option" where
  \<comment> \<open>\<open>s.rfind(c)\<close>, with \<open>None\<close> for -1\<close>
  "rfind_char c s =
     (case find_char c (rev s) of None \<Rightarrow> None | Some k \<Rightarrow> Some (length s - 1 - k))"

definition slice :: "string \<Rightarrow> nat \<Rightarrow> nat \<Rightarrow> string" where
  \<comment> \<open>\<open>s[i:j]\<close> for non-negative \<open>i\<close>, \<open>j\<close>\<close>
  "slice s i j = drop i (take j s)"

section \<open>Guard results and their aggregation (guards/base.py)\<close>

record GuardResult =
  name :: string
  verdict :: string
  reason :: string
  model :: string

definition any_block :: "GuardResult list \<Rightarrow> bool" where
  "any_block results = list_ex (\<lambda>r. verdict r = ''block'') results"

fun get_blocking_guard :: "GuardResult list \<Rightarrow> GuardResult option" where
  "get_blocking_guard [] = None"
| "get_blocking_guard (r # rs) =
     (if verdict r = ''block'' then Some r else get_blocking_guard rs)"

section \<open>Configuration (config.py)\<close>

text \<open>
  The loaded \<open>config.yaml\<close>: the \<open>guards\<close> dictionary, whose entries carry the truth
  value of \<open>enabled\<close> and the \<open>model\<close> string, and the top-level keys \<open>groq.model\<close> and
  \<open>on_safety_timeout\<close>; \<open>None\<close> is a missing key. The process environment holds the
  two variables \<open>get_groq_model\<close> reads.
\<close>

record GuardConfig =
  cfg_enabled :: bool
  cfg_model :: "string option"

record Config =
  guards :: "string \<rightharpoonup> GuardConfig"
  groq_model :: "string option"
  on_safety_timeout :: "string option"

record Environ =
  MODEL_NAME :: "string option"
  GROQ_MODEL :: "string option"

definition or_str :: "string \<Rightarrow> string \<Rightarrow> string" where
  \<comment> \<open>\<open>a or b\<close> on two strings\<close>
  "or_str a b = (if a = [] then b else a)"

definition or_empty :: "string option \<Rightarrow> string" where
  \<comment> \<open>\<open>x or ""\<close> where \<open>x\<close> is a string or \<open>None\<close>\<close>
  "or_empty x = (case x of None \<Rightarrow> [] | Some s \<Rightarrow> s)"

definition get_groq_model :: "Environ \<Rightarrow> Config \<Rightarrow> string" where
  "get_groq_model env cfg =
     (let out = or_str (or_str (or_str (strip (or_empty (MODEL_NAME env)))
                                       (strip (or_empty (GROQ_MODEL env))))
                               (or_empty (groq_model cfg)))
                       ''llama-3.3-70b-versatile''
      in if out \<noteq> [] then strip out else ''llama-3.3-70b-versatile'')"

definition is_guard_enabled :: "Config \<Rightarrow> string \<Rightarrow> bool" where
  "is_guard_enabled cfg guard_name =
     (if guard_name = [] then False
      else (case guards cfg guard_name of None \<Rightarrow> False | Some g \<Rightarrow> cfg_enabled g))"

definition get_guard_model :: "Config \<Rightarrow> string \<Rightarrow> string" where
  "get_guard_model cfg guard_name =
     (if guard_name = [] then ''phi3''
      else (let out = or_str (case guards cfg guard_name of None \<Rightarrow> []
                              | Some g \<Rightarrow> or_empty (cfg_model g)) ''phi3''
            in if out \<noteq> [] then strip out else ''phi3''))"

definition get_on_safety_timeout :: "Config \<Rightarrow> string" where
  "get_on_safety_timeout cfg =
     (let v = lower (strip (or_str (or_empty (on_safety_timeout cfg)) ''flag''))
      in if v = ''block'' then ''block'' else ''flag'')"

section \<open>The guard runner (guards/base.py)\<close>

text \<open>
  A check function takes the user message, the model response and the model identifier;
  it returns a \<open>GuardResult\<close> (\<open>Inr\<close>) or raises an exception, of which the model keeps
  the text (\<open>Inl\<close>). The exceptions of the model are the instances of Python's
  \<open>Exception\<close>; interpreter exits and interrupts are not modelled. \<open>run_one\<close> is the
  body submitted to the executor, with its \<open>try\<close>/\<open>except Exception\<close>; its own outcome
  has the same shape.
\<close>

type_synonym guard_fn = "string \<Rightarrow> string \<Rightarrow> string \<Rightarrow> string + GuardResult"

definition SAFETY_GUARD_NAME :: string where
  "SAFETY_GUARD_NAME = ''safety''"

definition run_one ::
  "string \<Rightarrow> string \<Rightarrow> string \<Rightarrow> guard_fn \<Rightarrow> string \<Rightarrow> string + GuardResult" where
  "run_one user_message model_response nm fn mdl =
     (case fn user_message model_response mdl of
        Inr r \<Rightarrow> Inr \<lparr>name = name r, verdict = verdict r, reason = reason r, model = mdl\<rparr>
      | Inl e \<Rightarrow>
          Inr \<lparr>name = nm, verdict = ''flag'', reason = ''Guard error: '' @ e, model = mdl\<rparr>)"

text \<open>
  \<open>future.result(timeout=timeout_sec)\<close> has three outcomes: the value the submitted call
  returned, \<open>FuturesTimeoutError\<close> when the call had not finished when the wait ended, or
  the exception the call raised. Whether the call of slot \<open>idx\<close> finished in time is an
  input of the model (\<open>in_time idx\<close>): the clock is not modelled, and what is proved
  for every \<open>in_time\<close> holds for every timing and every order of completion.
\<close>

datatype waited = Done GuardResult | TimedOut | Failed string

definition future_result :: "bool \<Rightarrow> string + GuardResult \<Rightarrow> waited" where
  "future_result finished outcome =
     (if \<not> finished then TimedOut
      else (case outcome of Inr r \<Rightarrow> Done r | Inl e \<Rightarrow> Failed e))"

fun enabled_tasks :: "Config \<Rightarrow> (string \<times> guard_fn) list \<Rightarrow> (string \<times> guard_fn \<times> string) list" where
  \<comment> \<open>the loop that builds \<open>tasks\<close>\<close>
  "enabled_tasks cfg [] = []"
| "enabled_tasks cfg ((nm, fn) # rest) =
     (if \<not> is_guard_enabled cfg nm then enabled_tasks cfg rest
      else (nm, fn, get_guard_model cfg nm) # enabled_tasks cfg rest)"

definition fill_slot ::
  "string \<Rightarrow> (nat \<Rightarrow> bool) \<Rightarrow> (string + GuardResult) \<times> string \<times> nat \<times> string
     \<Rightarrow> GuardResult option list \<Rightarrow> GuardResult option list" where
  \<comment> \<open>one round of the loop over \<open>futures\<close>\<close>
  "fill_slot policy in_time entry results =
     (case entry of (future, nm, idx, mdl) \<Rightarrow>
        (case future_result (in_time idx) future of
           Done result \<Rightarrow> results[idx := Some result]
         | TimedOut \<Rightarrow>
             (if nm = SAFETY_GUARD_NAME \<and> policy = ''block''
              then results[idx := Some \<lparr>name = nm, verdict = ''block'',
                     reason = ''Safety check timed out; response not verified.'',
                     model = mdl\<rparr>]
              else results[idx := Some \<lparr>name = nm, verdict = ''flag'',
                     reason = ''Timeout'', model = mdl\<rparr>])
         | Failed e \<Rightarrow>
             results[idx := Some \<lparr>name = nm, verdict = ''flag'', reason = e, model = mdl\<rparr>]))"

definition slot_result :: "string \<Rightarrow> string \<Rightarrow> string \<Rightarrow> waited \<Rightarrow> GuardResult" where
  \<comment> \<open>the result that round of the loop stores, by the outcome of the wait\<close>
  "slot_result policy nm mdl w =
     (case w of
        Done result \<Rightarrow> result
      | TimedOut \<Rightarrow>
          (if nm = SAFETY_GUARD_NAME \<and> policy = ''block''
           then \<lparr>name = nm, verdict = ''block'',
                  reason = ''Safety check timed out; response not verified.'', model = mdl\<rparr>
           else \<lparr>name = nm, verdict = ''flag'', reason = ''Timeout'', model = mdl\<rparr>)
      | Failed e \<Rightarrow> \<lparr>name = nm, verdict = ''flag'', reason = e, model = mdl\<rparr>)"

definition run_guards ::
  "Config \<Rightarrow> (nat \<Rightarrow> bool) \<Rightarrow> string \<Rightarrow> string \<Rightarrow> (string \<times> guard_fn) list
     \<Rightarrow> GuardResult list" where
  "run_guards cfg in_time user_message model_response guard_fns =
     (let user_message = strip user_message;
          model_response = strip model_response;
          tasks = enabled_tasks cfg guard_fns
      in if tasks = [] then []
         else
           (let policy = get_on_safety_timeout cfg;
                results = replicate (length tasks) None;
                futures = map (\<lambda>((nm, fn, mdl), i).
                                 (run_one user_message model_response nm fn mdl, nm, i, mdl))
                              (zip tasks [0 ..< length tasks]);
                results = fold (fill_slot policy in_time) futures results
            in List.map_filter (\<lambda>r. r) results))"

section \<open>The verdict parser (guards/ollama_guard.py)\<close>

text \<open>
  A Python value as far as the parser looks at it: a \<open>str\<close>, or a value of any other
  type (\<open>None\<close>, a number, a list, a dictionary, ...), of which the code reads only the
  truth value (in \<open>or\<close>) and the \<open>str()\<close> rendering.
\<close>

datatype pyval = PyStr string | PyOther bool string

definition py_None :: pyval where
  "py_None = PyOther False ''None''"

fun truthy :: "pyval \<Rightarrow> bool" where
  "truthy (PyStr s) = (s \<noteq> [])"
| "truthy (PyOther b rendering) = b"

definition py_or :: "pyval \<Rightarrow> pyval \<Rightarrow> pyval" where
  \<comment> \<open>\<open>a or b\<close>\<close>
  "py_or a b = (if truthy a then a else b)"

fun py_str :: "pyval \<Rightarrow> string" where
  \<comment> \<open>\<open>str(v)\<close>\<close>
  "py_str (PyStr s) = s"
| "py_str (PyOther b rendering) = rendering"

definition py_get :: "(string \<rightharpoonup> pyval) \<Rightarrow> string \<Rightarrow> pyval" where
  \<comment> \<open>\<open>obj.get(key)\<close>\<close>
  "py_get obj k = (case obj k of None \<Rightarrow> py_None | Some v \<Rightarrow> v)"

text \<open>
  \<open>json.loads\<close> is Python's library function and is a parameter of the model. It is only
  called on a text that starts with an opening brace, so a successful call returns a
  dictionary (\<open>Decoded\<close>). It fails with \<open>json.JSONDecodeError\<close> (\<open>DecodeError\<close>), which the
  \<open>except\<close> clause of the parser catches, or with an exception of another class
  (\<open>OtherError\<close>, with its text), which that clause does not catch: \<open>RecursionError\<close>
  on a text whose brackets are nested deeper than the interpreter's recursion limit.
\<close>

datatype loaded = Decoded "string \<rightharpoonup> pyval" | DecodeError | OtherError string

type_synonym json_loads = "string \<Rightarrow> loaded"

definition DEFAULT_VERDICT :: string where
  "DEFAULT_VERDICT = ''flag''"

definition DEFAULT_REASON :: string where
  "DEFAULT_REASON = ''Unclear response''"

fun safe_str :: "pyval \<Rightarrow> string" where
  "safe_str (PyStr s) = strip s"
| "safe_str (PyOther b rendering) = []"

definition verdict_words :: "string list" where
  \<comment> \<open>the tuple \<open>("pass", "flag", "block")\<close>\<close>
  "verdict_words = [''pass'', ''flag'', ''block'']"

definition bare_verdict_line :: "string \<Rightarrow> bool" where
  \<comment> \<open>\<open>re.match(r"^(pass|flag|block)\s*:?\s*$", line, re.I)\<close>\<close>
  "bare_verdict_line line =
     list_ex (\<lambda>w. startswith (lower line) w \<and>
        (let r1 = dropWhile isspace (drop (length w) line);
             r2 = (case r1 of [] \<Rightarrow> r1 | c # t \<Rightarrow> if c = CHR '':'' then t else r1);
             r3 = dropWhile isspace r2
         in r3 = [])) verdict_words"

fun first_reason :: "string list \<Rightarrow> string" where
  \<comment> \<open>the loop over \<open>lines\<close> of the fallback; the empty string when it never breaks\<close>
  "first_reason [] = []"
| "first_reason (l # ls) =
     (let line = safe_str (PyStr l)
      in if line \<noteq> [] \<and> \<not> bare_verdict_line line then take 200 line
         else first_reason ls)"

definition json_verdict ::
  "json_loads \<Rightarrow> string \<Rightarrow> string + (string \<times> string) option" where
  \<comment> \<open>the \<open>try\<close> block: \<open>Inr (Some _)\<close> when it returns, \<open>Inr None\<close> when control reaches
      the fallback, \<open>Inl\<close> when an exception leaves it\<close>
  "json_verdict loads raw =
     (case find_char (CHR 0x7B) raw of
        None \<Rightarrow> Inr None
      | Some start \<Rightarrow>
          (let end' = (case rfind_char (CHR 0x7D) raw of None \<Rightarrow> 0 | Some k \<Rightarrow> k + 1)
           in if end' > start then
                (case loads (slice raw start end') of
                   DecodeError \<Rightarrow> Inr None
                 | OtherError e \<Rightarrow> Inl e
                 | Decoded obj \<Rightarrow>
                     (let v = lower (safe_str (py_or (py_or (py_get obj ''verdict'')
                                                           (py_get obj ''result''))
                                                    (PyStr [])))
                      in if v \<in> set verdict_words then
                           (let r = py_or (py_or (py_get obj ''reason'')
                                                 (py_get obj ''explanation''))
                                          (PyStr [])
                            in Inr (Some (v, take 200 (safe_str (PyStr (py_str r))))))
                         else Inr None))
              else Inr None))"

definition fallback_verdict :: "string \<Rightarrow> string list \<Rightarrow> string \<times> string" where
  \<comment> \<open>the code after the \<open>try\<close> block\<close>
  "fallback_verdict raw lines =
     (let raw_lower = lower raw;
          v = (if contains raw_lower ''block'' then ''block''
               else if contains raw_lower ''flag'' then ''flag''
               else ''pass'');
          reason = first_reason lines;
          reason = (if reason = [] \<and> raw \<noteq> [] then take 200 raw else reason)
      in (v, reason))"

definition parse_verdict :: "json_loads \<Rightarrow> string \<Rightarrow> string + string \<times> string" where
  \<comment> \<open>\<open>Inr\<close> the pair it returns, \<open>Inl\<close> the text of the exception it raises\<close>
  "parse_verdict loads text =
     (let raw = safe_str (PyStr text);
          lines = split_nl raw;
          first_line = lower (safe_str (PyStr (case lines of [] \<Rightarrow> [] | l # ls \<Rightarrow> l)))
      in if first_line \<in> set verdict_words then
           (let rest = strip (join_nl (drop 1 lines))
            in Inr (first_line, (if rest \<noteq> [] then take 200 rest else [])))
         else
           (case json_verdict loads raw of
              Inl e \<Rightarrow> Inl e
            | Inr (Some vr) \<Rightarrow> Inr vr
            | Inr None \<Rightarrow> Inr (fallback_verdict raw lines)))"

text \<open>
  The classifier call \<open>ollama.chat\<close> is a parameter: given the model, the system prompt
  and the user content it raises (\<open>Inl\<close>, the text of the exception) or answers with the
  content of the reply, \<open>None\<close> when the reply carries none.
\<close>

type_synonym ollama_chat = "string \<Rightarrow> string \<Rightarrow> string \<Rightarrow> string + string option"

definition call_ollama_guard ::
  "ollama_chat \<Rightarrow> json_loads \<Rightarrow> string \<Rightarrow> string \<Rightarrow> string \<Rightarrow> string \<Rightarrow> GuardResult" where
  "call_ollama_guard chat loads guard_name system_prompt user_content mdl =
     (let guard_name = or_str (safe_str (PyStr guard_name)) ''guard'';
          mdl = or_str (safe_str (PyStr mdl)) ''phi3'';
          system_prompt = or_str (safe_str (PyStr system_prompt))
                                 ''Classify as pass, flag, or block.'';
          user_content = or_str (safe_str (PyStr user_content)) ''(no content)''
      in case chat mdl system_prompt user_content of
           Inl e \<Rightarrow>
             \<lparr>name = guard_name, verdict = DEFAULT_VERDICT,
              reason = ''Ollama error: '' @ e, model = []\<rparr>
         | Inr content \<Rightarrow>
             (let text = safe_str (PyStr (or_empty content));
                  (v, reason) =
                    (case parse_verdict loads text of
                       Inr (v, rsn) \<Rightarrow>
                         (if v \<notin> set verdict_words
                          then (DEFAULT_VERDICT, or_str rsn DEFAULT_REASON)
                          else (v, rsn))
                     | Inl e \<Rightarrow> (DEFAULT_VERDICT, DEFAULT_REASON))
              in \<lparr>name = guard_name, verdict = v, reason = or_str reason [], model = []\<rparr>))"

section \<open>The four guards (guards/prompts.py, safety.py, topic.py, format_guard.py, pii.py)\<close>

definition GUARD_OUTPUT_RULES :: string where
  \<open>GUARD_OUTPUT_RULES =
     ''\<newline>Output format: On the first line output exactly one word: pass, flag, or block (only when your instructions allow block).\<newline>When the situation is ambiguous or you are unsure, prefer pass or flag; use block only when clearly required by the rules above.\<newline>Do not output anything before the verdict word. Optionally on the next line add a very short reason.''\<close>

definition build_guard_prompt :: "string \<Rightarrow> string" where
  "build_guard_prompt instructions =
     strip (strip instructions @ [CHR 0x0A, CHR 0x0A] @ strip GUARD_OUTPUT_RULES)"

definition SAFETY_SYSTEM :: string where
  \<open>SAFETY_SYSTEM = build_guard_prompt
     ''You are a content safety classifier. Given the user message and the AI model's response, classify the response:\<newline>- pass: Safe, helpful, not harmful or toxic. When in doubt, use pass.\<newline>- flag: Borderline (e.g. sensitive topic but handled carefully).\<newline>- block: Only if the response clearly contains harmful, toxic, unsafe, or clearly inappropriate content. If ambiguous, use flag instead of block.''\<close>

text \<open>
  In \<open>TOPIC_SYSTEM\<close> the source has a dash beyond code point 255 before
  "that is on-topic"; the model writes a hyphen there.
\<close>

definition TOPIC_SYSTEM :: string where
  \<open>TOPIC_SYSTEM = build_guard_prompt
     ''You are a topic relevance classifier. Given the user message and the AI model's response, decide if the response is appropriate.\<newline>- pass: The response is appropriate. Includes: answering the question; replying to greetings ("Hi", "Hey", "Hello") with a friendly greeting or offer to help; acknowledging the user; staying on subject. Greetings and small talk deserve a friendly reply - that is on-topic.\<newline>- flag: Somewhat relevant but goes off on a tangent or adds a lot of unrelated content.\<newline>- block: Only if the response clearly ignores the user (e.g. user asked about X and the model talks only about unrelated Y with no acknowledgment). Do NOT block polite responses to greetings or open-ended messages. When in doubt, use pass or flag.''\<close>

definition FORMAT_SYSTEM :: string where
  \<open>FORMAT_SYSTEM = build_guard_prompt
     ''You are a response format checker. Classify the AI response:\<newline>- pass: Reasonable length and structure (readable paragraphs or clear sentences). Short replies (e.g. greetings) are fine. When in doubt, use pass.\<newline>- flag: Clearly too long, too fragmented, or odd formatting. Do not use block; this guard only uses pass or flag.''\<close>

definition PII_SYSTEM :: string where
  \<open>PII_SYSTEM = build_guard_prompt
     ''You are a PII and sensitive data detector. Check if the AI model's response contains personal or sensitive information (e.g. email, phone, address, credentials, API keys).\<newline>- pass: No PII or sensitive data detected. Generic examples or placeholders (e.g. "user@example.com") are pass. When in doubt, use pass.\<newline>- flag: Possible real PII or sensitive data detected. Do not use block; this guard only uses pass or flag.''\<close>

definition safety_guard ::
  "ollama_chat \<Rightarrow> json_loads \<Rightarrow> string \<Rightarrow> string \<Rightarrow> string \<Rightarrow> GuardResult" where
  "safety_guard chat loads user_message model_response ollama_model =
     (let user_content = ''User message:'' @ [CHR 0x0A]
            @ or_str (strip user_message) ''(empty)''
            @ [CHR 0x0A, CHR 0x0A] @ ''Model response:'' @ [CHR 0x0A]
            @ or_str (strip model_response) ''(empty)''
      in call_ollama_guard chat loads ''safety'' SAFETY_SYSTEM user_content ollama_model)"

definition topic_guard ::
  "ollama_chat \<Rightarrow> json_loads \<Rightarrow> string \<Rightarrow> string \<Rightarrow> string \<Rightarrow> GuardResult" where
  "topic_guard chat loads user_message model_response ollama_model =
     (let user_content = ''User message:'' @ [CHR 0x0A]
            @ or_str (strip user_message) ''(empty)''
            @ [CHR 0x0A, CHR 0x0A] @ ''Model response:'' @ [CHR 0x0A]
            @ or_str (strip model_response) ''(empty)''
      in call_ollama_guard chat loads ''topic'' TOPIC_SYSTEM user_content ollama_model)"

definition format_guard ::
  "ollama_chat \<Rightarrow> json_loads \<Rightarrow> string \<Rightarrow> string \<Rightarrow> string \<Rightarrow> GuardResult" where
  "format_guard chat loads user_message model_response ollama_model =
     (let user_content = ''Model response to check:'' @ [CHR 0x0A]
            @ or_str (strip model_response) ''(empty)'';
          r = call_ollama_guard chat loads ''format'' FORMAT_SYSTEM user_content ollama_model
      in if verdict r = ''block''
         then \<lparr>name = name r, verdict = ''flag'',
               reason = or_str (reason r) ''Format guard does not block'', model = []\<rparr>
         else r)"

definition pii_guard ::
  "ollama_chat \<Rightarrow> json_loads \<Rightarrow> string \<Rightarrow> string \<Rightarrow> string \<Rightarrow> GuardResult" where
  "pii_guard chat loads user_message model_response ollama_model =
     (let user_content = ''Model response to check:'' @ [CHR 0x0A]
            @ or_str (strip model_response) ''(empty)'';
          r = call_ollama_guard chat loads ''pii'' PII_SYSTEM user_content ollama_model
      in if verdict r = ''block''
         then \<lparr>name = name r, verdict = ''flag'',
               reason = or_str (reason r) ''PII guard does not block'', model = []\<rparr>
         else r)"

definition as_guard_fn ::
  "(string \<Rightarrow> string \<Rightarrow> string \<Rightarrow> GuardResult) \<Rightarrow> guard_fn" where
  \<comment> \<open>a guard that always returns, seen as a check function of the runner\<close>
  "as_guard_fn g = (\<lambda>user_message model_response mdl. Inr (g user_message model_response mdl))"

section \<open>The session store (session_store.py)\<close>

text \<open>
  A message is a dictionary with the keys \<open>role\<close> and \<open>content\<close>, kept as the list of
  its items. \<open>_sessions\<close> is a \<open>defaultdict(list)\<close>: every session identifier has a
  list, empty until something is appended, so the store is a total function.
\<close>

type_synonym message = "(string \<times> string) list"

type_synonym sessions = "string \<Rightarrow> message list"

definition MAX_HISTORY_MESSAGES :: nat where
  "MAX_HISTORY_MESSAGES = 20"

definition no_sessions :: sessions where
  \<comment> \<open>the store when the module is loaded\<close>
  "no_sessions = (\<lambda>session_id. [])"

definition append_exchange :: "sessions \<Rightarrow> string \<Rightarrow> string \<Rightarrow> string \<Rightarrow> sessions" where
  "append_exchange store session_id user_message assistant_message =
     (let messages = store session_id
            @ [[(''role'', ''user''), (''content'', user_message)]]
            @ [[(''role'', ''assistant''), (''content'', assistant_message)]]
      in if length messages > MAX_HISTORY_MESSAGES
         then store(session_id := drop (length messages - MAX_HISTORY_MESSAGES) messages)
         else store(session_id := messages))"

definition get_history :: "sessions \<Rightarrow> string \<Rightarrow> message list" where
  "get_history store session_id = store session_id"

text \<open>
  A sequence of \<open>append_exchange\<close> calls, each with its session identifier, user message
  and assistant message; \<open>exchange\<close> is the pair of messages one call appends and
  \<open>appended\<close> is everything the calls appended to one session, oldest first.
\<close>

definition append_exchanges :: "sessions \<Rightarrow> (string \<times> string \<times> string) list \<Rightarrow> sessions" where
  "append_exchanges store calls =
     fold (\<lambda>(sid, user_message, assistant_message) st.
             append_exchange st sid user_message assistant_message) calls store"

definition exchange :: "string \<Rightarrow> string \<Rightarrow> message list" where
  "exchange user_message assistant_message =
     [[(''role'', ''user''), (''content'', user_message)],
      [(''role'', ''assistant''), (''content'', assistant_message)]]"

definition appended :: "(string \<times> string \<times> string) list \<Rightarrow> string \<Rightarrow> message list" where
  "appended calls session =
     concat (map (\<lambda>(sid, user_message, assistant_message).
                    exchange user_message assistant_message)
                 (filter (\<lambda>(sid, user_message, assistant_message). sid = session) calls))"

section \<open>The chat endpoint (main.py)\<close>

definition BLOCKED_MESSAGE :: string where
  "BLOCKED_MESSAGE = ''This response was blocked by a safety check.''"

definition MAX_MESSAGE_LENGTH :: nat where
  "MAX_MESSAGE_LENGTH = 32000"

definition GROQ_DEFAULT_SYSTEM :: string where
  "GROQ_DEFAULT_SYSTEM =
     ''You are a helpful assistant. Answer the user's question clearly and concisely.''"

definition GUARD_FNS :: "ollama_chat \<Rightarrow> json_loads \<Rightarrow> (string \<times> guard_fn) list" where
  "GUARD_FNS chat loads =
     [(''safety'', as_guard_fn (safety_guard chat loads)),
      (''topic'', as_guard_fn (topic_guard chat loads)),
      (''format'', as_guard_fn (format_guard chat loads)),
      (''pii'', as_guard_fn (pii_guard chat loads))]"

record ChatRequest =
  message :: string
  system_prompt :: "string option"
  session_id :: "string option"
  history :: "message list option"
  skip_guards :: bool

record GuardResultOut =
  out_name :: string
  out_verdict :: string
  out_reason :: string
  out_model :: string

record ChatResponse =
  response :: string
  blocked :: bool
  guard_results :: "GuardResultOut list"
  response_session_id :: string
  primary_model :: string

datatype http_error = HTTPException nat string

definition normalize_response :: "string \<Rightarrow> string" where
  "normalize_response text = strip text"

definition prefixes :: "string list" where
  "prefixes = [''pass.'', ''pass:'', ''flag.'', ''flag:'', ''block.'', ''block:'',
               ''reason:'', ''reason.'']"

function strip_prefixes :: "string \<Rightarrow> string" where
  \<comment> \<open>the \<open>while s:\<close> loop of \<open>_normalize_guard_reason\<close>\<close>
  "strip_prefixes s =
     (if s = [] then s
      else (case find (\<lambda>p. startswith (lower s) p) prefixes of
              None \<Rightarrow> s
            | Some p \<Rightarrow> strip_prefixes (strip (drop (length p) s))))"
  by pat_completeness auto
termination
proof (relation "measure length")
  show "wf (measure length)" by simp
next
  fix s :: string and p :: string
  assume ne: "s \<noteq> []"
    and found: "find (\<lambda>p. startswith (lower s) p) prefixes = Some p"
  have shorter: "length (strip t) \<le> length t" for t
  proof -
    have "length (dropWhile isspace (rev (dropWhile isspace t)))
            \<le> length (rev (dropWhile isspace t))"
      by (rule length_dropWhile_le)
    also have "\<dots> \<le> length t"
      by (simp add: length_dropWhile_le)
    finally show ?thesis by (simp add: strip_def)
  qed
  from found have "p \<in> set prefixes"
    by (auto simp: find_Some_iff)
  then have "0 < length p"
    by (auto simp: prefixes_def)
  with ne have "length (drop (length p) s) < length s"
    by (cases s) auto
  with shorter [of "drop (length p) s"]
  show "(strip (drop (length p) s), s) \<in> measure length"
    by simp
qed

definition normalize_guard_reason :: "string \<Rightarrow> string" where
  "normalize_guard_reason rsn =
     (if rsn = [] then []
      else (let s = strip_prefixes (strip rsn)
            in if length s > 120 then take 120 s else s))"

definition guard_result_out :: "GuardResult \<Rightarrow> GuardResultOut" where
  \<comment> \<open>the body of the loop of \<open>_guard_results_out\<close>\<close>
  "guard_result_out r =
     (let raw_reason = take 500 (strip (reason r));
          reason = normalize_guard_reason raw_reason
      in \<lparr>out_name = strip (or_str (name r) ''guard''),
          out_verdict = or_str (strip (or_str (verdict r) ''flag'')) ''flag'',
          out_reason = reason,
          out_model = take 100 (strip (model r))\<rparr>)"

definition guard_results_out :: "GuardResult list \<Rightarrow> GuardResultOut list" where
  "guard_results_out results = map guard_result_out results"

text \<open>
  \<open>chat\<close> takes the store and returns it with its answer: an \<open>HTTPException\<close> (\<open>Inl\<close>)
  or a \<open>ChatResponse\<close>. Its other inputs are the configuration and environment, the two
  identifiers \<open>uuid.uuid4()\<close> would produce, the Groq call \<open>chat_completion\<close> (it raises,
  \<open>Inl\<close> with the text of the exception, or returns the completion), the classifier
  call, \<open>json.loads\<close> and the timing of the guards. The \<open>except\<close> branch around
  \<open>run_guards\<close> has no counterpart: \<open>run_guards\<close> of the model returns on every input.
\<close>

definition chat ::
  "Config \<Rightarrow> Environ \<Rightarrow> string \<times> string
     \<Rightarrow> (string \<Rightarrow> string \<Rightarrow> message list \<Rightarrow> string + string)
     \<Rightarrow> ollama_chat \<Rightarrow> json_loads \<Rightarrow> (nat \<Rightarrow> bool)
     \<Rightarrow> sessions \<Rightarrow> ChatRequest \<Rightarrow> (http_error + ChatResponse) \<times> sessions" where
  "chat cfg env uuids chat_completion ollama loads in_time store req =
     (let msg = strip (message req)
      in if msg = [] then (Inl (HTTPException 400 ''message is required''), store)
         else if length msg > MAX_MESSAGE_LENGTH
         then (Inl (HTTPException 400 ''message too long (max 32000 characters)''), store)
         else
           (let sid = or_str (strip (or_str (or_empty (session_id req)) (fst uuids)))
                             (snd uuids);
                hist = (case history req of Some h \<Rightarrow> h | None \<Rightarrow> get_history store sid);
                system = or_str (strip (or_str (or_str (or_empty (system_prompt req))
                                                       GROQ_DEFAULT_SYSTEM) []))
                                GROQ_DEFAULT_SYSTEM
            in case chat_completion msg system hist of
                 Inl e \<Rightarrow>
                   (let err_msg = lower e
                    in if contains err_msg ''401'' \<or> contains err_msg ''invalid api key''
                          \<or> contains err_msg ''expired_api_key''
                       then (Inl (HTTPException 401
                               ''Invalid or expired Groq API key. Get a new key at https://console.groq.com/keys and set GROQ_API_KEY in your .env file, then restart the app.''),
                             store)
                       else (Inl (HTTPException 502 e), store))
               | Inr raw_response \<Rightarrow>
                   (let raw_response = normalize_response raw_response;
                        pm = get_groq_model env cfg
                    in if skip_guards req then
                         (Inr \<lparr>response = raw_response, blocked = False, guard_results = [],
                               response_session_id = sid, primary_model = pm\<rparr>,
                          append_exchange store sid msg raw_response)
                       else
                         (let results = run_guards cfg in_time msg raw_response
                                          (GUARD_FNS ollama loads)
                          in if any_block results then
                               (let blocking = get_blocking_guard results;
                                    safe_msg = BLOCKED_MESSAGE;
                                    safe_msg =
                                      (case blocking of
                                         None \<Rightarrow> safe_msg
                                       | Some b \<Rightarrow>
                                           if strip (reason b) \<noteq> []
                                           then safe_msg @ '' ('' @ name b @ '': ''
                                                  @ reason b @ '')''
                                           else safe_msg)
                                in (Inr \<lparr>response = safe_msg, blocked = True,
                                          guard_results = guard_results_out results,
                                          response_session_id = sid, primary_model = pm\<rparr>,
                                    store))
                             else
                               (Inr \<lparr>response = raw_response, blocked = False,
                                      guard_results = guard_results_out results,
                                      response_session_id = sid, primary_model = pm\<rparr>,
                                append_exchange store sid msg raw_response)))))"

section \<open>Fixed inputs for the worked examples\<close>

definition answers :: "string \<Rightarrow> ollama_chat" where
  \<comment> \<open>a classifier that answers every call with the same text\<close>
  "answers raw = (\<lambda>mdl system_prompt user_content. Inr (Some raw))"

definition unreachable :: "string \<Rightarrow> ollama_chat" where
  \<comment> \<open>a classifier whose every call raises an exception with the given text\<close>
  "unreachable e = (\<lambda>mdl system_prompt user_content. Inl e)"

definition rejects :: json_loads where
  \<comment> \<open>\<open>json.loads\<close> on texts that are not JSON\<close>
  "rejects = (\<lambda>s. DecodeError)"

definition returns :: "GuardResult \<Rightarrow> guard_fn" where
  \<comment> \<open>a check function that returns the given result\<close>
  "returns r = (\<lambda>user_message model_response mdl. Inr r)"

definition raises :: "string \<Rightarrow> guard_fn" where
  \<comment> \<open>a check function that raises an exception with the given text\<close>
  "raises e = (\<lambda>user_message model_response mdl. Inl e)"

definition json_reply :: string where
  \<comment> \<open>a reply that carries a JSON object and, after it, the word block\<close>
  \<open>json_reply = ''Result: {"verdict": " Flag ", "reason": "borderline"} would not block''\<close>

definition reads_json_reply :: json_loads where
  \<comment> \<open>\<open>json.loads\<close> on the object of \<open>json_reply\<close>, and on texts that are not JSON\<close>
  \<open>reads_json_reply =
     (\<lambda>s. if s = ''{"verdict": " Flag ", "reason": "borderline"}''
          then Decoded [''verdict'' \<mapsto> PyStr '' Flag '', ''reason'' \<mapsto> PyStr ''borderline'']
          else DecodeError)\<close>

definition deeply_nested :: string where
  \<comment> \<open>a JSON object that holds a thousand arrays, one inside the other (2006 characters)\<close>
  \<open>deeply_nested =
     ''{"a":'' @ replicate 1000 (CHR ''['') @ replicate 1000 (CHR '']'') @ ''}''\<close>

definition overflows :: json_loads where
  \<comment> \<open>\<open>json.loads\<close> on \<open>deeply_nested\<close>, and on texts that are not JSON\<close>
  "overflows =
     (\<lambda>s. if s = deeply_nested
          then OtherError ''maximum recursion depth exceeded while decoding a JSON array from a unicode string''
          else DecodeError)"

definition eleven_exchanges :: "(string \<times> string \<times> string) list" where
  "eleven_exchanges =
     [(''s1'', ''q1'', ''a1''), (''s1'', ''q2'', ''a2''), (''s1'', ''q3'', ''a3''),
      (''s1'', ''q4'', ''a4''), (''s1'', ''q5'', ''a5''), (''s1'', ''q6'', ''a6''),
      (''s1'', ''q7'', ''a7''), (''s1'', ''q8'', ''a8''), (''s1'', ''q9'', ''a9''),
      (''s1'', ''q10'', ''a10''), (''s1'', ''q11'', ''a11'')]"

definition example_request :: ChatRequest where
  "example_request =
     \<lparr>message = ''Hello'', system_prompt = None, session_id = Some ''s1'', history = None,
      skip_guards = False\<rparr>"

definition example_store :: sessions where
  \<comment> \<open>the store after one exchange in the session \<open>s1\<close>\<close>
  "example_store = append_exchanges no_sessions [(''s1'', ''q1'', ''a1'')]"

definition example_environ :: Environ where
  "example_environ = \<lparr>MODEL_NAME = None, GROQ_MODEL = None\<rparr>"

definition completes :: "string \<Rightarrow> string \<Rightarrow> string \<Rightarrow> message list \<Rightarrow> string + string" where
  \<comment> \<open>a Groq call that returns the same completion every time\<close>
  "completes raw = (\<lambda>user_message system hist. Inr raw)"

definition in_time_always :: "nat \<Rightarrow> bool" where
  \<comment> \<open>every call finishes before the wait for it ends\<close>
  "in_time_always idx = True"

definition example_config :: "string \<Rightarrow> Config" where
  \<comment> \<open>three guards enabled, \<open>format\<close> disabled, and the given \<open>on_safety_timeout\<close>\<close>
  "example_config policy =
     \<lparr>guards = [''safety'' \<mapsto> \<lparr>cfg_enabled = True, cfg_model = Some ''phi3''\<rparr>,
                ''topic'' \<mapsto> \<lparr>cfg_enabled = True, cfg_model = Some ''llama3.2''\<rparr>,
                ''format'' \<mapsto> \<lparr>cfg_enabled = False, cfg_model = Some ''phi3''\<rparr>,
                ''pii'' \<mapsto> \<lparr>cfg_enabled = True, cfg_model = None\<rparr>],
      groq_model = None,
      on_safety_timeout = Some policy\<rparr>"

definition example_fns :: "(string \<times> guard_fn) list" where
  "example_fns =
     [(''safety'', returns \<lparr>name = ''safety'', verdict = ''pass'', reason = [], model = []\<rparr>),
      (''topic'', returns \<lparr>name = ''topic'', verdict = ''pass'', reason = ''on topic'', model = []\<rparr>),
      (''format'', returns \<lparr>name = ''format'', verdict = ''pass'', reason = [], model = []\<rparr>),
      (''pii'', raises ''connection refused'')]"

definition all_but_first :: "nat \<Rightarrow> bool" where
  \<comment> \<open>the wait for slot 0 times out, every other call finishes in time\<close>
  "all_but_first idx = (idx \<noteq> 0)"

section \<open>Evaluating the string functions\<close>

lemmas string_eval =
  strip_def isspace_def lower_def lower_char_def uppercase_def lowercase_def
  or_str_def or_empty_def slice_def rfind_char_def verdict_words_def Let_def

section \<open>Aggregation: a block verdict, and only a block verdict, blocks\<close>

lemma get_blocking_guard_None:
  "(get_blocking_guard rs = None) = (\<forall>r \<in> set rs. verdict r \<noteq> ''block'')"
  by (induction rs) auto

lemma get_blocking_guard_Some:
  "(get_blocking_guard rs = Some b) =
   (\<exists>pre post. rs = pre @ b # post \<and> verdict b = ''block''
      \<and> (\<forall>r \<in> set pre. verdict r \<noteq> ''block''))"
proof (induction rs)
  case Nil
  show ?case by simp
next
  case (Cons r rs)
  show ?case
  proof (cases "verdict r = ''block''")
    case True
    have "(\<exists>pre post. r # rs = pre @ b # post \<and> verdict b = ''block''
            \<and> (\<forall>x \<in> set pre. verdict x \<noteq> ''block'')) = (r = b)"
    proof
      assume "\<exists>pre post. r # rs = pre @ b # post \<and> verdict b = ''block''
                \<and> (\<forall>x \<in> set pre. verdict x \<noteq> ''block'')"
      then obtain pre post where e: "r # rs = pre @ b # post"
        and n: "\<forall>x \<in> set pre. verdict x \<noteq> ''block''" by blast
      show "r = b"
      proof (cases pre)
        case Nil
        with e show ?thesis by simp
      next
        case (Cons p ps)
        with e have "p = r" by simp
        with Cons n True show ?thesis by simp
      qed
    next
      assume "r = b"
      with True have "r # rs = [] @ b # rs \<and> verdict b = ''block''
          \<and> (\<forall>x \<in> set []. verdict x \<noteq> ''block'')" by simp
      then show "\<exists>pre post. r # rs = pre @ b # post \<and> verdict b = ''block''
                \<and> (\<forall>x \<in> set pre. verdict x \<noteq> ''block'')" by blast
    qed
    with True show ?thesis by simp
  next
    case False
    have "(\<exists>pre post. r # rs = pre @ b # post \<and> verdict b = ''block''
            \<and> (\<forall>x \<in> set pre. verdict x \<noteq> ''block'')) =
          (\<exists>pre post. rs = pre @ b # post \<and> verdict b = ''block''
            \<and> (\<forall>x \<in> set pre. verdict x \<noteq> ''block''))"
    proof
      assume "\<exists>pre post. r # rs = pre @ b # post \<and> verdict b = ''block''
                \<and> (\<forall>x \<in> set pre. verdict x \<noteq> ''block'')"
      then obtain pre post where e: "r # rs = pre @ b # post"
        and vb: "verdict b = ''block''"
        and n: "\<forall>x \<in> set pre. verdict x \<noteq> ''block''" by blast
      from e vb False obtain ps where p: "pre = r # ps"
        by (cases pre) auto
      with e n have "rs = ps @ b # post \<and> (\<forall>x \<in> set ps. verdict x \<noteq> ''block'')"
        by simp
      with vb show "\<exists>pre post. rs = pre @ b # post \<and> verdict b = ''block''
                \<and> (\<forall>x \<in> set pre. verdict x \<noteq> ''block'')" by blast
    next
      assume "\<exists>pre post. rs = pre @ b # post \<and> verdict b = ''block''
                \<and> (\<forall>x \<in> set pre. verdict x \<noteq> ''block'')"
      then obtain pre post where e: "rs = pre @ b # post"
        and vb: "verdict b = ''block''"
        and n: "\<forall>x \<in> set pre. verdict x \<noteq> ''block''" by blast
      from e n False vb
      have "r # rs = (r # pre) @ b # post \<and> verdict b = ''block''
          \<and> (\<forall>x \<in> set (r # pre). verdict x \<noteq> ''block'')" by simp
      then show "\<exists>pre post. r # rs = pre @ b # post \<and> verdict b = ''block''
                \<and> (\<forall>x \<in> set pre. verdict x \<noteq> ''block'')" by blast
    qed
    with False Cons.IH show ?thesis by simp
  qed
qed

lemma any_block_iff: "any_block rs = (\<exists>r \<in> set rs. verdict r = ''block'')"
  by (simp add: any_block_def list_ex_iff)

text \<open>
  C1. For every finite list of guard results, \<open>any_block\<close> is true exactly when some
  element has the verdict \<open>block\<close>; \<open>get_blocking_guard\<close> returns the first element, in
  the order of the list, whose verdict is \<open>block\<close>, and \<open>None\<close> exactly when nothing
  blocks; a list of only \<open>pass\<close> and \<open>flag\<close> verdicts never blocks.
\<close>

theorem aggregation_first_block:
  "(any_block rs = (\<exists>r \<in> set rs. verdict r = ''block''))
   \<and> ((get_blocking_guard rs = Some b) =
        (\<exists>pre post. rs = pre @ b # post \<and> verdict b = ''block''
           \<and> (\<forall>r \<in> set pre. verdict r \<noteq> ''block'')))
   \<and> ((get_blocking_guard rs = None) = (\<not> any_block rs))
   \<and> ((\<forall>r \<in> set rs. verdict r = ''pass'' \<or> verdict r = ''flag'')
        \<longrightarrow> \<not> any_block rs \<and> get_blocking_guard rs = None)"
proof (intro conjI)
  show "any_block rs = (\<exists>r \<in> set rs. verdict r = ''block'')"
    by (rule any_block_iff)
  show "(get_blocking_guard rs = Some b) =
        (\<exists>pre post. rs = pre @ b # post \<and> verdict b = ''block''
           \<and> (\<forall>r \<in> set pre. verdict r \<noteq> ''block''))"
    by (rule get_blocking_guard_Some)
  show none: "(get_blocking_guard rs = None) = (\<not> any_block rs)"
    by (simp add: get_blocking_guard_None any_block_iff)
  show "(\<forall>r \<in> set rs. verdict r = ''pass'' \<or> verdict r = ''flag'')
        \<longrightarrow> \<not> any_block rs \<and> get_blocking_guard rs = None"
  proof
    assume pf: "\<forall>r \<in> set rs. verdict r = ''pass'' \<or> verdict r = ''flag''"
    have "\<not> any_block rs"
      unfolding any_block_iff
    proof
      assume "\<exists>r \<in> set rs. verdict r = ''block''"
      then obtain r where "r \<in> set rs" and "verdict r = ''block''" by blast
      with pf show False by auto
    qed
    with none show "\<not> any_block rs \<and> get_blocking_guard rs = None" by simp
  qed
qed

theorem aggregation_first_block_witness:
  "any_block
     [\<lparr>name = ''safety'', verdict = ''pass'', reason = [], model = ''phi3''\<rparr>,
      \<lparr>name = ''topic'', verdict = ''block'', reason = ''off topic'', model = ''phi3''\<rparr>,
      \<lparr>name = ''format'', verdict = ''flag'', reason = [], model = ''phi3''\<rparr>,
      \<lparr>name = ''pii'', verdict = ''block'', reason = ''email'', model = ''phi3''\<rparr>]
   \<and> get_blocking_guard
     [\<lparr>name = ''safety'', verdict = ''pass'', reason = [], model = ''phi3''\<rparr>,
      \<lparr>name = ''topic'', verdict = ''block'', reason = ''off topic'', model = ''phi3''\<rparr>,
      \<lparr>name = ''format'', verdict = ''flag'', reason = [], model = ''phi3''\<rparr>,
      \<lparr>name = ''pii'', verdict = ''block'', reason = ''email'', model = ''phi3''\<rparr>]
     = Some \<lparr>name = ''topic'', verdict = ''block'', reason = ''off topic'', model = ''phi3''\<rparr>
   \<and> \<not> any_block
     [\<lparr>name = ''safety'', verdict = ''pass'', reason = [], model = ''phi3''\<rparr>,
      \<lparr>name = ''format'', verdict = ''flag'', reason = [], model = ''phi3''\<rparr>]
   \<and> get_blocking_guard
     [\<lparr>name = ''safety'', verdict = ''pass'', reason = [], model = ''phi3''\<rparr>,
      \<lparr>name = ''format'', verdict = ''flag'', reason = [], model = ''phi3''\<rparr>] = None"
proof -
  let ?p = "\<lparr>name = ''safety'', verdict = ''pass'', reason = [], model = ''phi3''\<rparr>"
  let ?t = "\<lparr>name = ''topic'', verdict = ''block'', reason = ''off topic'', model = ''phi3''\<rparr>"
  let ?f = "\<lparr>name = ''format'', verdict = ''flag'', reason = [], model = ''phi3''\<rparr>"
  let ?i = "\<lparr>name = ''pii'', verdict = ''block'', reason = ''email'', model = ''phi3''\<rparr>"
  have split: "[?p, ?t, ?f, ?i] = [?p] @ ?t # [?f, ?i] \<and> verdict ?t = ''block''
      \<and> (\<forall>r \<in> set [?p]. verdict r \<noteq> ''block'')"
    by simp
  then have ex: "\<exists>pre post. [?p, ?t, ?f, ?i] = pre @ ?t # post \<and> verdict ?t = ''block''
      \<and> (\<forall>r \<in> set pre. verdict r \<noteq> ''block'')"
    by blast
  have mem: "\<exists>r \<in> set [?p, ?t, ?f, ?i]. verdict r = ''block''"
    by simp
  have quiet: "\<forall>r \<in> set [?p, ?f]. verdict r = ''pass'' \<or> verdict r = ''flag''"
    by simp
  from aggregation_first_block [of "[?p, ?t, ?f, ?i]" ?t] ex mem
  have a: "any_block [?p, ?t, ?f, ?i] \<and> get_blocking_guard [?p, ?t, ?f, ?i] = Some ?t"
    by blast
  from aggregation_first_block [of "[?p, ?f]" ?p] quiet
  have b: "\<not> any_block [?p, ?f] \<and> get_blocking_guard [?p, ?f] = None"
    by blast
  from a b show ?thesis by blast
qed

section \<open>The runner fills every slot in task order\<close>

lemma fill_slot_update:
  "fill_slot policy in_time (future, nm, idx, mdl) results =
     results[idx := Some (slot_result policy nm mdl (future_result (in_time idx) future))]"
  by (cases "future_result (in_time idx) future") (simp_all add: fill_slot_def slot_result_def)

lemma fold_fill_slot:
  "k + length ts \<le> length rs \<Longrightarrow>
   fold (fill_slot policy in_time)
        (map (\<lambda>((nm, fn, mdl), i). (run_one um mr nm fn mdl, nm, i, mdl))
             (zip ts [k ..< k + length ts])) rs =
   take k rs
   @ map (\<lambda>((nm, fn, mdl), i).
            Some (slot_result policy nm mdl
                    (future_result (in_time i) (run_one um mr nm fn mdl))))
         (zip ts [k ..< k + length ts])
   @ drop (k + length ts) rs"
proof (induction ts arbitrary: k rs)
  case Nil
  show ?case by simp
next
  case (Cons t ts)
  obtain nm fn mdl where t: "t = (nm, fn, mdl)"
    by (cases t) auto
  let ?v = "Some (slot_result policy nm mdl
                    (future_result (in_time k) (run_one um mr nm fn mdl)))"
  have range: "[k ..< Suc (k + length ts)] = k # [Suc k ..< Suc (k + length ts)]"
    by (rule upt_conv_Cons) simp
  from Cons.prems have bound: "Suc k + length ts \<le> length (rs[k := ?v])"
    by simp
  from Cons.prems have klt: "k < length rs"
    by simp
  have "take (Suc k) (rs[k := ?v]) = take k rs @ [?v]"
    using klt by (simp add: take_Suc_conv_app_nth)
  moreover have "drop (Suc k + length ts) (rs[k := ?v]) = drop (Suc k + length ts) rs"
    by simp
  ultimately show ?case
    using Cons.IH [OF bound] by (simp add: t range fill_slot_update del: upt_Suc)
qed

lemma map_filter_Some: "List.map_filter (\<lambda>r. r) (map (\<lambda>x. Some (f x)) xs) = map f xs"
  by (induction xs) simp_all

lemma run_guards_eq:
  "run_guards cfg in_time user_message model_response guard_fns =
     map (\<lambda>((nm, fn, mdl), i).
            slot_result (get_on_safety_timeout cfg) nm mdl
              (future_result (in_time i)
                 (run_one (strip user_message) (strip model_response) nm fn mdl)))
         (zip (enabled_tasks cfg guard_fns) [0 ..< length (enabled_tasks cfg guard_fns)])"
proof (cases "enabled_tasks cfg guard_fns = []")
  case True
  then show ?thesis by (simp add: run_guards_def)
next
  case False
  let ?ts = "enabled_tasks cfg guard_fns"
  have "0 + length ?ts \<le> length (replicate (length ?ts) (None :: GuardResult option))"
    by simp
  from fold_fill_slot [OF this, of "get_on_safety_timeout cfg" in_time
                         "strip user_message" "strip model_response"]
  have "fold (fill_slot (get_on_safety_timeout cfg) in_time)
          (map (\<lambda>((nm, fn, mdl), i).
                  (run_one (strip user_message) (strip model_response) nm fn mdl, nm, i, mdl))
               (zip ?ts [0 ..< length ?ts]))
          (replicate (length ?ts) None)
        = map (\<lambda>((nm, fn, mdl), i).
                 Some (slot_result (get_on_safety_timeout cfg) nm mdl
                   (future_result (in_time i)
                      (run_one (strip user_message) (strip model_response) nm fn mdl))))
              (zip ?ts [0 ..< length ?ts])"
    by simp
  moreover have "List.map_filter (\<lambda>r. r)
      (map (\<lambda>((nm, fn, mdl), i).
                 Some (slot_result (get_on_safety_timeout cfg) nm mdl
                   (future_result (in_time i)
                      (run_one (strip user_message) (strip model_response) nm fn mdl))))
              (zip ?ts [0 ..< length ?ts]))
     = map (\<lambda>((nm, fn, mdl), i).
                 slot_result (get_on_safety_timeout cfg) nm mdl
                   (future_result (in_time i)
                      (run_one (strip user_message) (strip model_response) nm fn mdl)))
              (zip ?ts [0 ..< length ?ts])"
    using map_filter_Some [of "\<lambda>((nm, fn, mdl), i).
                 slot_result (get_on_safety_timeout cfg) nm mdl
                   (future_result (in_time i)
                      (run_one (strip user_message) (strip model_response) nm fn mdl))"
            "zip ?ts [0 ..< length ?ts]"]
    by (simp add: case_prod_unfold)
  ultimately show ?thesis
    using False by (simp add: run_guards_def Let_def)
qed

lemma run_guards_length:
  "length (run_guards cfg in_time user_message model_response guard_fns) =
     length (enabled_tasks cfg guard_fns)"
  by (simp add: run_guards_eq)

lemma run_guards_nth:
  assumes "i < length (enabled_tasks cfg guard_fns)"
    and "enabled_tasks cfg guard_fns ! i = (nm, fn, mdl)"
  shows "run_guards cfg in_time user_message model_response guard_fns ! i =
     slot_result (get_on_safety_timeout cfg) nm mdl
       (future_result (in_time i)
          (run_one (strip user_message) (strip model_response) nm fn mdl))"
  using assms by (simp add: run_guards_eq)

lemma enabled_tasks_names:
  "map fst (enabled_tasks cfg guard_fns) = filter (is_guard_enabled cfg) (map fst guard_fns)"
  by (induction cfg guard_fns rule: enabled_tasks.induct) simp_all

lemma slot_result_model:
  "model (slot_result policy nm mdl
            (future_result finished (run_one um mr nm fn mdl))) = mdl"
  by (cases "fn um mr mdl")
     (simp_all add: slot_result_def future_result_def run_one_def)

lemma example_tasks:
  "enabled_tasks (example_config policy) example_fns =
     [(''safety'',
       returns \<lparr>name = ''safety'', verdict = ''pass'', reason = [], model = []\<rparr>, ''phi3''),
      (''topic'',
       returns \<lparr>name = ''topic'', verdict = ''pass'', reason = ''on topic'', model = []\<rparr>,
       ''llama3.2''),
      (''pii'', raises ''connection refused'', ''phi3'')]"
  by (simp add: example_config_def example_fns_def is_guard_enabled_def get_guard_model_def
        or_str_def or_empty_def strip_def isspace_def)

lemma example_policy:
  "get_on_safety_timeout (example_config ''block'') = ''block''"
  "get_on_safety_timeout (example_config ''flag'') = ''flag''"
  by (simp_all add: get_on_safety_timeout_def example_config_def string_eval)

text \<open>
  C6. With no task to run, \<open>run_guards\<close> returns the empty list. Otherwise it returns
  one result for each task, in the order of the task list (the enabled entries of
  \<open>guard_fns\<close>, in their order): slot \<open>i\<close> holds what the wait for task \<open>i\<close> gave, and
  carries the model of task \<open>i\<close>, whichever calls finish, fail or time out.
\<close>

theorem run_guards_one_result_per_task:
  "(enabled_tasks cfg guard_fns = []
      \<longrightarrow> run_guards cfg in_time user_message model_response guard_fns = [])
   \<and> map fst (enabled_tasks cfg guard_fns)
       = filter (is_guard_enabled cfg) (map fst guard_fns)
   \<and> length (run_guards cfg in_time user_message model_response guard_fns)
       = length (enabled_tasks cfg guard_fns)
   \<and> (\<forall>i < length (enabled_tasks cfg guard_fns).
         (case enabled_tasks cfg guard_fns ! i of (nm, fn, mdl) \<Rightarrow>
            run_guards cfg in_time user_message model_response guard_fns ! i
              = slot_result (get_on_safety_timeout cfg) nm mdl
                  (future_result (in_time i)
                     (run_one (strip user_message) (strip model_response) nm fn mdl))
            \<and> model (run_guards cfg in_time user_message model_response guard_fns ! i)
                = mdl))"
proof (intro conjI allI impI)
  assume "enabled_tasks cfg guard_fns = []"
  then show "run_guards cfg in_time user_message model_response guard_fns = []"
    by (simp add: run_guards_def)
next
  show "map fst (enabled_tasks cfg guard_fns)
          = filter (is_guard_enabled cfg) (map fst guard_fns)"
    by (rule enabled_tasks_names)
next
  show "length (run_guards cfg in_time user_message model_response guard_fns)
          = length (enabled_tasks cfg guard_fns)"
    by (rule run_guards_length)
next
  fix i
  assume i: "i < length (enabled_tasks cfg guard_fns)"
  obtain nm fn mdl where t: "enabled_tasks cfg guard_fns ! i = (nm, fn, mdl)"
    by (cases "enabled_tasks cfg guard_fns ! i") auto
  from run_guards_nth [OF i t]
  have "run_guards cfg in_time user_message model_response guard_fns ! i
          = slot_result (get_on_safety_timeout cfg) nm mdl
              (future_result (in_time i)
                 (run_one (strip user_message) (strip model_response) nm fn mdl))" .
  with t show "case enabled_tasks cfg guard_fns ! i of (nm, fn, mdl) \<Rightarrow>
            run_guards cfg in_time user_message model_response guard_fns ! i
              = slot_result (get_on_safety_timeout cfg) nm mdl
                  (future_result (in_time i)
                     (run_one (strip user_message) (strip model_response) nm fn mdl))
            \<and> model (run_guards cfg in_time user_message model_response guard_fns ! i)
                = mdl"
    by (simp add: slot_result_model)
qed

theorem run_guards_one_result_per_task_witness:
  "length (run_guards (example_config ''block'') all_but_first ''Hello'' ''Hi there''
             example_fns) = 3
   \<and> model (run_guards (example_config ''block'') all_but_first ''Hello'' ''Hi there''
               example_fns ! 1) = ''llama3.2''
   \<and> run_guards (example_config ''block'') all_but_first ''Hello'' ''Hi there''
        example_fns ! 2
       = \<lparr>name = ''pii'', verdict = ''flag'', reason = ''Guard error: connection refused'',
          model = ''phi3''\<rparr>"
proof -
  note T = run_guards_one_result_per_task
    [of "example_config ''block''" example_fns all_but_first "''Hello''" "''Hi there''"]
  note len = T [THEN conjunct2, THEN conjunct2, THEN conjunct1]
  note slot = T [THEN conjunct2, THEN conjunct2, THEN conjunct2, rule_format]
  have i1: "1 < length (enabled_tasks (example_config ''block'') example_fns)"
    by (simp add: example_tasks)
  have i2: "2 < length (enabled_tasks (example_config ''block'') example_fns)"
    by (simp add: example_tasks)
  have t1: "enabled_tasks (example_config ''block'') example_fns ! 1 =
      (''topic'',
       returns \<lparr>name = ''topic'', verdict = ''pass'', reason = ''on topic'', model = []\<rparr>,
       ''llama3.2'')"
    by (simp add: example_tasks)
  have t2: "enabled_tasks (example_config ''block'') example_fns ! 2 =
      (''pii'', raises ''connection refused'', ''phi3'')"
    by (simp add: example_tasks)
  have w2: "slot_result policy ''pii'' ''phi3''
      (future_result (all_but_first 2) (run_one um mr ''pii'' (raises ''connection refused'')
         ''phi3''))
     = \<lparr>name = ''pii'', verdict = ''flag'', reason = ''Guard error: connection refused'',
          model = ''phi3''\<rparr>" for policy um mr
    by (simp add: slot_result_def future_result_def run_one_def raises_def all_but_first_def)
  from slot [OF i1, unfolded t1 prod.case] have one: "model (run_guards (example_config ''block'') all_but_first
      ''Hello'' ''Hi there'' example_fns ! 1) = ''llama3.2''"
    by (rule conjunct2)
  from slot [OF i2, unfolded t2 prod.case w2] have two: "run_guards (example_config ''block'') all_but_first ''Hello''
        ''Hi there'' example_fns ! 2
       = \<lparr>name = ''pii'', verdict = ''flag'', reason = ''Guard error: connection refused'',
          model = ''phi3''\<rparr>"
    by (rule conjunct1)
  have three: "length (enabled_tasks (example_config ''block'') example_fns) = 3"
    by (simp add: example_tasks)
  from len three one two show ?thesis
    by simp
qed

text \<open>
  C2. When the wait for a task times out, its slot holds the verdict \<open>block\<close> with the
  reason "Safety check timed out; response not verified." if the task is named
  \<open>safety\<close> and the configured policy is \<open>block\<close>, and the verdict \<open>flag\<close> with the
  reason "Timeout" in every other case: a timed-out slot blocks only for \<open>safety\<close>
  under the policy \<open>block\<close>.
\<close>

theorem timeout_blocks_only_safety_under_policy:
  assumes "i < length (enabled_tasks cfg guard_fns)"
    and "enabled_tasks cfg guard_fns ! i = (nm, fn, mdl)"
    and "\<not> in_time i"
  shows "run_guards cfg in_time user_message model_response guard_fns ! i =
           (if nm = ''safety'' \<and> get_on_safety_timeout cfg = ''block''
            then \<lparr>name = nm, verdict = ''block'',
                   reason = ''Safety check timed out; response not verified.'', model = mdl\<rparr>
            else \<lparr>name = nm, verdict = ''flag'', reason = ''Timeout'', model = mdl\<rparr>)
         \<and> (verdict (run_guards cfg in_time user_message model_response guard_fns ! i)
               = ''block'')
             = (nm = ''safety'' \<and> get_on_safety_timeout cfg = ''block'')
         \<and> (get_on_safety_timeout cfg = ''block'' \<or> get_on_safety_timeout cfg = ''flag'')"
proof -
  from assms(3) have w: "future_result (in_time i)
      (run_one (strip user_message) (strip model_response) nm fn mdl) = TimedOut"
    by (simp add: future_result_def)
  have slot: "run_guards cfg in_time user_message model_response guard_fns ! i =
      slot_result (get_on_safety_timeout cfg) nm mdl TimedOut"
    using run_guards_nth [OF assms(1) assms(2)] w by simp
  have pol: "get_on_safety_timeout cfg = ''block'' \<or> get_on_safety_timeout cfg = ''flag''"
    by (simp add: get_on_safety_timeout_def Let_def)
  from slot pol show ?thesis
    by (auto simp: slot_result_def SAFETY_GUARD_NAME_def)
qed

theorem timeout_blocks_only_safety_under_policy_witness:
  "run_guards (example_config ''block'') all_but_first ''Hello'' ''Hi there'' example_fns ! 0
     = \<lparr>name = ''safety'', verdict = ''block'',
        reason = ''Safety check timed out; response not verified.'', model = ''phi3''\<rparr>
   \<and> run_guards (example_config ''flag'') all_but_first ''Hello'' ''Hi there'' example_fns ! 0
     = \<lparr>name = ''safety'', verdict = ''flag'', reason = ''Timeout'', model = ''phi3''\<rparr>
   \<and> run_guards (example_config ''block'') (\<lambda>idx. idx \<noteq> 1) ''Hello'' ''Hi there''
        example_fns ! 1
     = \<lparr>name = ''topic'', verdict = ''flag'', reason = ''Timeout'', model = ''llama3.2''\<rparr>"
proof -
  have late: "\<not> all_but_first 0"
    by (simp add: all_but_first_def)
  have a: "0 < length (enabled_tasks (example_config policy) example_fns)" for policy
    by (simp add: example_tasks)
  have b: "enabled_tasks (example_config policy) example_fns ! 0 =
      (''safety'',
       returns \<lparr>name = ''safety'', verdict = ''pass'', reason = [], model = []\<rparr>, ''phi3'')"
    for policy
    by (simp add: example_tasks)
  have c: "1 < length (enabled_tasks (example_config ''block'') example_fns)"
    by (simp add: example_tasks)
  have d: "enabled_tasks (example_config ''block'') example_fns ! 1 =
      (''topic'',
       returns \<lparr>name = ''topic'', verdict = ''pass'', reason = ''on topic'', model = []\<rparr>,
       ''llama3.2'')"
    by (simp add: example_tasks)
  have e: "\<not> (\<lambda>idx. idx \<noteq> (1::nat)) 1"
    by simp
  from timeout_blocks_only_safety_under_policy
         [of 0 "example_config ''block''" example_fns _ _ _ all_but_first "''Hello''"
            "''Hi there''", OF a b late]
       timeout_blocks_only_safety_under_policy
         [of 0 "example_config ''flag''" example_fns _ _ _ all_but_first "''Hello''"
            "''Hi there''", OF a b late]
       timeout_blocks_only_safety_under_policy
         [of 1 "example_config ''block''" example_fns _ _ _ "\<lambda>idx. idx \<noteq> 1" "''Hello''"
            "''Hi there''", OF c d e]
  show ?thesis
    by (simp add: example_policy)
qed

lemma run_one_returns: "\<exists>r. run_one um mr nm fn mdl = Inr r"
  by (cases "fn um mr mdl") (simp_all add: run_one_def)

lemma call_ollama_guard_error:
  assumes "classify (or_str (strip mdl) ''phi3'')
                (or_str (strip prompt) ''Classify as pass, flag, or block.'')
                (or_str (strip user_content) ''(no content)'') = Inl e"
  shows "call_ollama_guard classify loads guard_name prompt user_content mdl =
           \<lparr>name = or_str (strip guard_name) ''guard'', verdict = ''flag'',
            reason = ''Ollama error: '' @ e, model = []\<rparr>"
  using assms by (simp add: call_ollama_guard_def DEFAULT_VERDICT_def)

text \<open>
  C7, as amended. When the check function of a task raises an exception (an instance of
  \<open>Exception\<close>) and the runner's wait for the task has not timed out, the slot of the
  task holds the verdict \<open>flag\<close> with the text of the exception in its reason. The call
  \<open>run_one\<close> submitted for a task always returns a result, whatever such exception
  its check function raises, so the runner, whose every slot is filled from such a call
  or from a timeout, raises nothing. An exception of the classifier call is turned into
  a \<open>flag\<close> result by \<open>call_ollama_guard\<close>.
\<close>

theorem check_errors_become_flags:
  "(i < length (enabled_tasks cfg guard_fns)
      \<and> enabled_tasks cfg guard_fns ! i = (nm, fn, mdl)
      \<and> in_time i
      \<and> fn (strip user_message) (strip model_response) mdl = Inl e
    \<longrightarrow> run_guards cfg in_time user_message model_response guard_fns ! i
          = \<lparr>name = nm, verdict = ''flag'', reason = ''Guard error: '' @ e, model = mdl\<rparr>)
   \<and> (\<exists>r. run_one um mr nm' fn' mdl' = Inr r)
   \<and> (classify (or_str (strip ollama_model) ''phi3'')
             (or_str (strip prompt) ''Classify as pass, flag, or block.'')
             (or_str (strip user_content) ''(no content)'') = Inl e'
    \<longrightarrow> call_ollama_guard classify loads guard_name prompt user_content ollama_model
          = \<lparr>name = or_str (strip guard_name) ''guard'', verdict = ''flag'',
             reason = ''Ollama error: '' @ e', model = []\<rparr>)"
proof (intro conjI impI)
  assume a: "i < length (enabled_tasks cfg guard_fns)
      \<and> enabled_tasks cfg guard_fns ! i = (nm, fn, mdl)
      \<and> in_time i
      \<and> fn (strip user_message) (strip model_response) mdl = Inl e"
  then have i: "i < length (enabled_tasks cfg guard_fns)"
    and t: "enabled_tasks cfg guard_fns ! i = (nm, fn, mdl)"
    and seen: "in_time i"
    and raised: "fn (strip user_message) (strip model_response) mdl = Inl e"
    by simp_all
  from raised have "run_one (strip user_message) (strip model_response) nm fn mdl
      = Inr \<lparr>name = nm, verdict = ''flag'', reason = ''Guard error: '' @ e, model = mdl\<rparr>"
    by (simp add: run_one_def)
  with seen have "slot_result (get_on_safety_timeout cfg) nm mdl
      (future_result (in_time i)
         (run_one (strip user_message) (strip model_response) nm fn mdl))
      = \<lparr>name = nm, verdict = ''flag'', reason = ''Guard error: '' @ e, model = mdl\<rparr>"
    by (simp add: slot_result_def future_result_def)
  with run_guards_nth [OF i t]
  show "run_guards cfg in_time user_message model_response guard_fns ! i
          = \<lparr>name = nm, verdict = ''flag'', reason = ''Guard error: '' @ e, model = mdl\<rparr>"
    by simp
next
  show "\<exists>r. run_one um mr nm' fn' mdl' = Inr r"
    by (rule run_one_returns)
next
  assume "classify (or_str (strip ollama_model) ''phi3'')
             (or_str (strip prompt) ''Classify as pass, flag, or block.'')
             (or_str (strip user_content) ''(no content)'') = Inl e'"
  then show "call_ollama_guard classify loads guard_name prompt user_content ollama_model
          = \<lparr>name = or_str (strip guard_name) ''guard'', verdict = ''flag'',
             reason = ''Ollama error: '' @ e', model = []\<rparr>"
    by (rule call_ollama_guard_error)
qed

theorem check_errors_become_flags_witness:
  "run_guards (example_config ''block'') all_but_first ''Hello'' ''Hi there'' example_fns ! 2
     = \<lparr>name = ''pii'', verdict = ''flag'', reason = ''Guard error: connection refused'',
        model = ''phi3''\<rparr>
   \<and> call_ollama_guard (unreachable ''connection refused'') rejects ''pii'' PII_SYSTEM
        ''Model response to check: Hi there'' ''phi3''
     = \<lparr>name = ''pii'', verdict = ''flag'', reason = ''Ollama error: connection refused'',
        model = []\<rparr>"
proof -
  note T = check_errors_become_flags
    [of 2 "example_config ''block''" example_fns "''pii''" "raises ''connection refused''"
        "''phi3''" all_but_first "''Hello''" "''Hi there''" "''connection refused''"
        _ _ _ _ _ "unreachable ''connection refused''" "''phi3''" PII_SYSTEM
        "''Model response to check: Hi there''" "''connection refused''" rejects "''pii''"]
  have pre: "2 < length (enabled_tasks (example_config ''block'') example_fns)
      \<and> enabled_tasks (example_config ''block'') example_fns ! 2
          = (''pii'', raises ''connection refused'', ''phi3'')
      \<and> all_but_first 2
      \<and> raises ''connection refused'' (strip ''Hello'') (strip ''Hi there'') ''phi3''
          = Inl ''connection refused''"
    by (simp add: example_tasks all_but_first_def raises_def)
  have down: "unreachable ''connection refused'' (or_str (strip ''phi3'') ''phi3'')
      (or_str (strip PII_SYSTEM) ''Classify as pass, flag, or block.'')
      (or_str (strip ''Model response to check: Hi there'') ''(no content)'')
      = Inl ''connection refused''"
    by (simp add: unreachable_def)
  have nm: "or_str (strip ''pii'') ''guard'' = ''pii''"
    by (simp add: or_str_def strip_def isspace_def)
  from T [THEN conjunct1, rule_format, OF pre]
       T [THEN conjunct2, THEN conjunct2, rule_format, OF down]
  show ?thesis
    by (simp add: nm)
qed

text \<open>
  C7 as it is stated fails for a check function that raises after the wait for its task
  has timed out: the slot is filled from the timeout, and the exception is never looked
  at. A \<open>safety\<close> check that raises too late gets the verdict \<open>block\<close> under the policy
  \<open>block\<close>; any other late check gets \<open>flag\<close> with the reason "Timeout", without the text
  of its exception.
\<close>

theorem late_error_counterexample:
  "raises ''boom'' (strip ''Hello'') (strip ''Hi there'') ''phi3'' = Inl ''boom''
   \<and> run_guards (example_config ''block'') all_but_first ''Hello'' ''Hi there''
        [(''safety'', raises ''boom'')] ! 0
     = \<lparr>name = ''safety'', verdict = ''block'',
        reason = ''Safety check timed out; response not verified.'', model = ''phi3''\<rparr>
   \<and> raises ''connection refused'' (strip ''Hello'') (strip ''Hi there'') ''phi3''
     = Inl ''connection refused''
   \<and> run_guards (example_config ''flag'') (\<lambda>idx. idx \<noteq> 2) ''Hello'' ''Hi there''
        example_fns ! 2
     = \<lparr>name = ''pii'', verdict = ''flag'', reason = ''Timeout'', model = ''phi3''\<rparr>"
proof -
  have "enabled_tasks (example_config policy) [(''safety'', raises ''boom'')]
      = [(''safety'', raises ''boom'', ''phi3'')]" for policy
    by (simp add: example_config_def is_guard_enabled_def get_guard_model_def
          or_str_def or_empty_def strip_def isspace_def)
  then have tasks: "enabled_tasks (example_config ''block'') [(''safety'', raises ''boom'')]
      = [(''safety'', raises ''boom'', ''phi3'')]" .
  have i0: "0 < length (enabled_tasks (example_config ''block'')
                          [(''safety'', raises ''boom'')])"
    unfolding tasks by simp
  have t0: "enabled_tasks (example_config ''block'') [(''safety'', raises ''boom'')] ! 0
      = (''safety'', raises ''boom'', ''phi3'')"
    unfolding tasks by simp
  have first: "run_guards (example_config ''block'') all_but_first ''Hello'' ''Hi there''
        [(''safety'', raises ''boom'')] ! 0
     = \<lparr>name = ''safety'', verdict = ''block'',
        reason = ''Safety check timed out; response not verified.'', model = ''phi3''\<rparr>"
    unfolding run_guards_nth [OF i0 t0]
    by (simp add: slot_result_def future_result_def all_but_first_def
          SAFETY_GUARD_NAME_def example_policy)
  have i2: "2 < length (enabled_tasks (example_config ''flag'') example_fns)"
    by (simp add: example_tasks)
  have t2: "enabled_tasks (example_config ''flag'') example_fns ! 2
      = (''pii'', raises ''connection refused'', ''phi3'')"
    by (simp add: example_tasks)
  have second: "run_guards (example_config ''flag'') (\<lambda>idx. idx \<noteq> 2) ''Hello''
        ''Hi there'' example_fns ! 2
     = \<lparr>name = ''pii'', verdict = ''flag'', reason = ''Timeout'', model = ''phi3''\<rparr>"
    unfolding run_guards_nth [OF i2 t2]
    by (simp add: slot_result_def future_result_def SAFETY_GUARD_NAME_def)
  from first second show ?thesis
    by (simp add: raises_def)
qed

section \<open>Where the verdict parser returns and where it raises\<close>

lemma length_strip: "length (strip s) \<le> length s"
proof -
  have "length (dropWhile isspace (rev (dropWhile isspace s)))
          \<le> length (rev (dropWhile isspace s))"
    by (rule length_dropWhile_le)
  also have "\<dots> \<le> length s"
    by (simp add: length_dropWhile_le)
  finally show ?thesis by (simp add: strip_def)
qed

lemma first_reason_length: "length (first_reason ls) \<le> 200"
  by (induction ls) (simp_all add: Let_def)

lemma json_verdict_Some:
  assumes "json_verdict loads raw = Inr (Some (v, r))"
  shows "v \<in> set verdict_words \<and> length r \<le> 200"
  using assms
  by (auto simp: json_verdict_def Let_def split: option.splits if_splits loaded.splits)

lemma json_verdict_Inl:
  assumes "json_verdict loads raw = Inl e"
  shows "\<exists>s. loads s = OtherError e"
  using assms
  by (auto simp: json_verdict_def Let_def split: option.splits if_splits loaded.splits)

lemma json_verdict_raises:
  assumes "find_char (CHR 0x7B) raw = Some start"
    and "rfind_char (CHR 0x7D) raw = Some k"
    and "start \<le> k"
    and "loads (slice raw start (Suc k)) = OtherError e"
  shows "json_verdict loads raw = Inl e"
  using assms by (simp add: json_verdict_def Let_def)

lemma fallback_verdict_range:
  "fst (fallback_verdict raw ls) \<in> set verdict_words
   \<and> length (snd (fallback_verdict raw ls)) \<le> 200"
  by (simp add: fallback_verdict_def Let_def verdict_words_def first_reason_length)

lemma parse_verdict_range:
  assumes "parse_verdict loads text = Inr (v, r)"
  shows "v \<in> set verdict_words \<and> length r \<le> 200"
proof (cases "lower (safe_str (PyStr (case split_nl (safe_str (PyStr text)) of
                                       [] \<Rightarrow> [] | l # ls \<Rightarrow> l))) \<in> set verdict_words")
  case True
  with assms show ?thesis
    by (auto simp: parse_verdict_def Let_def)
next
  case False
  show ?thesis
  proof (cases "json_verdict loads (safe_str (PyStr text))")
    case (Inl e)
    with False assms show ?thesis
      by (simp add: parse_verdict_def Let_def)
  next
    case (Inr found)
    show ?thesis
    proof (cases found)
      case None
      with False Inr assms
      have "fallback_verdict (safe_str (PyStr text)) (split_nl (safe_str (PyStr text)))
              = (v, r)"
        by (simp add: parse_verdict_def Let_def)
      with fallback_verdict_range [of "safe_str (PyStr text)"
               "split_nl (safe_str (PyStr text))"]
      show ?thesis by simp
    next
      case (Some vr)
      with False Inr assms have "json_verdict loads (safe_str (PyStr text)) = Inr (Some (v, r))"
        by (simp add: parse_verdict_def Let_def)
      then show ?thesis
        by (rule json_verdict_Some)
    qed
  qed
qed

lemma parse_verdict_returns:
  assumes "\<forall>s e. loads s \<noteq> OtherError e"
  shows "\<exists>v r. parse_verdict loads text = Inr (v, r)"
proof (cases "parse_verdict loads text")
  case (Inr vr)
  then show ?thesis by (cases vr) auto
next
  case (Inl e)
  then have "json_verdict loads (safe_str (PyStr text)) = Inl e"
    by (auto simp: parse_verdict_def Let_def split: if_splits sum.splits option.splits)
  then have "\<exists>s. loads s = OtherError e"
    by (rule json_verdict_Inl)
  with assms show ?thesis by blast
qed

lemma parse_verdict_raises:
  assumes "split_nl (strip text) = l # rest"
    and "lower (strip l) \<notin> set verdict_words"
    and "find_char (CHR 0x7B) (strip text) = Some start"
    and "rfind_char (CHR 0x7D) (strip text) = Some k"
    and "start \<le> k"
    and "loads (slice (strip text) start (Suc k)) = OtherError e"
  shows "parse_verdict loads text = Inl e"
proof -
  from assms(3-6) have "json_verdict loads (strip text) = Inl e"
    by (rule json_verdict_raises)
  with assms(1,2) show ?thesis
    by (simp add: parse_verdict_def Let_def)
qed

lemma split_nl_one_line: "CHR 0x0A \<notin> set s \<Longrightarrow> split_nl s = [s]"
  by (induction s) auto

lemma strip_deeply_nested: "strip deeply_nested = deeply_nested"
  by (simp add: deeply_nested_def strip_def isspace_def)

lemma deeply_nested_facts:
  "split_nl deeply_nested = deeply_nested # []"
  "lower (strip deeply_nested) \<notin> set verdict_words"
  "find_char (CHR 0x7B) deeply_nested = Some 0"
  "rfind_char (CHR 0x7D) deeply_nested = Some 2005"
  "slice deeply_nested 0 (Suc 2005) = deeply_nested"
  "length deeply_nested = 2006"
proof -
  show "split_nl deeply_nested = deeply_nested # []"
    by (rule split_nl_one_line) (simp add: deeply_nested_def)
  show "lower (strip deeply_nested) \<notin> set verdict_words"
    unfolding strip_deeply_nested
    by (simp add: deeply_nested_def lower_def lower_char_def uppercase_def lowercase_def
          verdict_words_def)
  show "find_char (CHR 0x7B) deeply_nested = Some 0"
    by (simp add: deeply_nested_def)
  show len: "length deeply_nested = 2006"
    by (simp add: deeply_nested_def)
  show "rfind_char (CHR 0x7D) deeply_nested = Some 2005"
    unfolding rfind_char_def len
    by (simp add: deeply_nested_def)
  show "slice deeply_nested 0 (Suc 2005) = deeply_nested"
    by (simp add: slice_def len)
qed

text \<open>
  C4. As long as \<open>json.loads\<close> fails with nothing but \<open>JSONDecodeError\<close>, \<open>_parse_verdict\<close>
  returns for every text, and whenever it returns, its verdict is one of \<open>pass\<close>, \<open>flag\<close>
  and \<open>block\<close> and its reason has at most 200 characters. It is not total, though: when
  the first line of the trimmed text is no verdict word and \<open>json.loads\<close> raises an
  exception of another class on the text between the first opening and the last closing
  brace, \<open>_parse_verdict\<close> raises that exception, against its docstring ("Never raises").
  The text \<open>deeply_nested\<close>, on which \<open>json.loads\<close> raises \<open>RecursionError\<close>, is such an
  input.
\<close>

theorem parse_verdict_raises_on_other_errors:
  "((\<forall>s e. loads s \<noteq> OtherError e)
      \<longrightarrow> (\<exists>v r. parse_verdict loads text = Inr (v, r)))
   \<and> (parse_verdict loads text = Inr (v, r)
      \<longrightarrow> (v = ''pass'' \<or> v = ''flag'' \<or> v = ''block'') \<and> length r \<le> 200)
   \<and> (split_nl (strip text) = l # rest
        \<and> lower (strip l) \<notin> set verdict_words
        \<and> find_char (CHR 0x7B) (strip text) = Some start
        \<and> rfind_char (CHR 0x7D) (strip text) = Some k
        \<and> start \<le> k
        \<and> loads (slice (strip text) start (Suc k)) = OtherError e
      \<longrightarrow> parse_verdict loads text = Inl e)"
proof (intro conjI impI)
  assume "\<forall>s e. loads s \<noteq> OtherError e"
  then show "\<exists>v r. parse_verdict loads text = Inr (v, r)"
    by (rule parse_verdict_returns)
next
  assume "parse_verdict loads text = Inr (v, r)"
  then have "v \<in> set verdict_words \<and> length r \<le> 200"
    by (rule parse_verdict_range)
  then show "v = ''pass'' \<or> v = ''flag'' \<or> v = ''block''" and "length r \<le> 200"
    by (simp_all add: verdict_words_def)
next
  assume "split_nl (strip text) = l # rest
        \<and> lower (strip l) \<notin> set verdict_words
        \<and> find_char (CHR 0x7B) (strip text) = Some start
        \<and> rfind_char (CHR 0x7D) (strip text) = Some k
        \<and> start \<le> k
        \<and> loads (slice (strip text) start (Suc k)) = OtherError e"
  then show "parse_verdict loads text = Inl e"
    using parse_verdict_raises [of "text" l rest start k loads e] by blast
qed

theorem parse_verdict_raises_on_other_errors_witness:
  "parse_verdict overflows deeply_nested
     = Inl ''maximum recursion depth exceeded while decoding a JSON array from a unicode string''
   \<and> (\<exists>v r. parse_verdict rejects deeply_nested = Inr (v, r)
          \<and> (v = ''pass'' \<or> v = ''flag'' \<or> v = ''block'') \<and> length r \<le> 200)"
proof -
  let ?e = "''maximum recursion depth exceeded while decoding a JSON array from a unicode string''"
  have pre: "split_nl (strip deeply_nested) = deeply_nested # []
        \<and> lower (strip deeply_nested) \<notin> set verdict_words
        \<and> find_char (CHR 0x7B) (strip deeply_nested) = Some 0
        \<and> rfind_char (CHR 0x7D) (strip deeply_nested) = Some 2005
        \<and> (0::nat) \<le> 2005
        \<and> overflows (slice (strip deeply_nested) 0 (Suc 2005)) = OtherError ?e"
    using deeply_nested_facts
    by (simp add: strip_deeply_nested overflows_def)
  have first: "parse_verdict overflows deeply_nested = Inl ?e"
    using parse_verdict_raises_on_other_errors
            [of overflows deeply_nested _ _ deeply_nested "[]" 0 2005 ?e,
             THEN conjunct2, THEN conjunct2, THEN mp, OF pre] .
  have quiet: "\<forall>s e. rejects s \<noteq> OtherError e"
    by (simp add: rejects_def)
  from parse_verdict_raises_on_other_errors
         [of rejects deeply_nested, THEN conjunct1, THEN mp, OF quiet]
  obtain v r where ret: "parse_verdict rejects deeply_nested = Inr (v, r)"
    by blast
  from parse_verdict_raises_on_other_errors
         [of rejects deeply_nested v r, THEN conjunct2, THEN conjunct1, THEN mp, OF ret]
  have "(v = ''pass'' \<or> v = ''flag'' \<or> v = ''block'') \<and> length r \<le> 200" .
  with ret first show ?thesis
    by blast
qed

text \<open>
  The guard around the parser catches what the parser raises: on the same reply
  \<open>call_ollama_guard\<close> returns the default verdict \<open>flag\<close> with the default reason.
\<close>

lemma call_ollama_guard_catches_example:
  "call_ollama_guard (answers deeply_nested) overflows ''safety'' SAFETY_SYSTEM
     ''Model response: Hi there'' ''phi3''
   = \<lparr>name = ''safety'', verdict = ''flag'', reason = ''Unclear response'', model = []\<rparr>"
proof -
  have "parse_verdict overflows (strip deeply_nested)
     = Inl ''maximum recursion depth exceeded while decoding a JSON array from a unicode string''"
    unfolding strip_deeply_nested
    using deeply_nested_facts
    by (intro parse_verdict_raises [of _ deeply_nested "[]" 0 2005])
       (simp_all add: strip_deeply_nested overflows_def)
  moreover have "or_str (strip ''safety'') ''guard'' = ''safety''"
    by (simp add: string_eval)
  ultimately show ?thesis
    by (simp add: call_ollama_guard_def answers_def or_empty_def DEFAULT_VERDICT_def
          DEFAULT_REASON_def or_str_def)
qed

lemma parse_verdict_examples:
  "parse_verdict rejects [] = Inr (''pass'', [])"
  "parse_verdict rejects ''   '' = Inr (''pass'', [])"
  "parse_verdict rejects ''{verdict: block'' = Inr (''block'', ''{verdict: block'')"
  "parse_verdict rejects ''Looks fine.\<newline>\<newline>Nothing to flag here.''
     = Inr (''flag'', ''Looks fine.'')"
  by (simp_all add: parse_verdict_def fallback_verdict_def json_verdict_def rejects_def
        bare_verdict_line_def string_eval)

section \<open>The precedence of the parsing rules\<close>

lemma split_nl_Cons: "\<exists>l rest. split_nl s = l # rest"
  by (induction s) (auto split: list.splits)

lemma json_verdict_match:
  assumes "find_char (CHR 0x7B) raw = Some start"
    and "rfind_char (CHR 0x7D) raw = Some k"
    and "start \<le> k"
    and "loads (slice raw start (Suc k)) = Decoded obj"
    and "lower (safe_str (py_or (py_or (py_get obj ''verdict'') (py_get obj ''result''))
                                (PyStr []))) \<in> set verdict_words"
  shows "\<exists>r. json_verdict loads raw =
           Inr (Some (lower (safe_str (py_or (py_or (py_get obj ''verdict'')
                                                    (py_get obj ''result'')) (PyStr []))), r))"
  using assms by (simp add: json_verdict_def Let_def)

lemma json_verdict_no_match:
  assumes "\<forall>start k.
             find_char (CHR 0x7B) raw = Some start \<and> rfind_char (CHR 0x7D) raw = Some k
             \<and> start \<le> k
             \<longrightarrow> loads (slice raw start (Suc k)) = DecodeError
                 \<or> (\<exists>obj. loads (slice raw start (Suc k)) = Decoded obj
                      \<and> lower (safe_str (py_or (py_or (py_get obj ''verdict'')
                                                       (py_get obj ''result'')) (PyStr [])))
                          \<notin> set verdict_words)"
  shows "json_verdict loads raw = Inr None"
proof (cases "find_char (CHR 0x7B) raw")
  case None
  then show ?thesis by (simp add: json_verdict_def)
next
  case (Some start)
  note start = Some
  show ?thesis
  proof (cases "rfind_char (CHR 0x7D) raw")
    case None
    with start show ?thesis by (simp add: json_verdict_def)
  next
    case (Some k)
    note k = Some
    show ?thesis
    proof (cases "start \<le> k")
      case False
      with start k show ?thesis
        by (simp add: json_verdict_def)
    next
      case True
      with assms start k
      have "loads (slice raw start (Suc k)) = DecodeError
            \<or> (\<exists>obj. loads (slice raw start (Suc k)) = Decoded obj
                 \<and> lower (safe_str (py_or (py_or (py_get obj ''verdict'')
                                                  (py_get obj ''result'')) (PyStr [])))
                     \<notin> set verdict_words)"
        by blast
      then show ?thesis
      proof
        assume "loads (slice raw start (Suc k)) = DecodeError"
        with start k True show ?thesis
          by (simp add: json_verdict_def)
      next
        assume "\<exists>obj. loads (slice raw start (Suc k)) = Decoded obj
                 \<and> lower (safe_str (py_or (py_or (py_get obj ''verdict'')
                                                  (py_get obj ''result'')) (PyStr [])))
                     \<notin> set verdict_words"
        then obtain obj where "loads (slice raw start (Suc k)) = Decoded obj"
          and "lower (safe_str (py_or (py_or (py_get obj ''verdict'')
                                             (py_get obj ''result'')) (PyStr [])))
                 \<notin> set verdict_words"
          by blast
        with start k True show ?thesis
          by (simp add: json_verdict_def Let_def)
      qed
    qed
  qed
qed

lemma parse_verdict_first_line:
  assumes "split_nl (strip text) = l # rest"
    and "lower (strip l) \<in> set verdict_words"
  shows "parse_verdict loads text = Inr (lower (strip l), take 200 (strip (join_nl rest)))"
  using assms by (simp add: parse_verdict_def Let_def)

lemma parse_verdict_json:
  assumes "split_nl (strip text) = l # rest"
    and "lower (strip l) \<notin> set verdict_words"
    and "json_verdict loads (strip text) = Inr (Some (v, r))"
  shows "parse_verdict loads text = Inr (v, r)"
  using assms by (simp add: parse_verdict_def Let_def)

lemma parse_verdict_fallback:
  assumes "split_nl (strip text) = l # rest"
    and "lower (strip l) \<notin> set verdict_words"
    and "json_verdict loads (strip text) = Inr None"
  shows "\<exists>r. parse_verdict loads text =
           Inr (if contains (lower (strip text)) ''block'' then ''block''
                else if contains (lower (strip text)) ''flag'' then ''flag''
                else ''pass'', r)"
  using assms by (simp add: parse_verdict_def fallback_verdict_def Let_def)

text \<open>
  C5, as amended. The rules are applied, in this order, to the text with the
  whitespace on both of its ends removed; \<open>l\<close> is the first line of that text and
  \<open>rest\<close> are its other lines.
  \<^enum> If \<open>l\<close>, trimmed and lowercased, is \<open>pass\<close>, \<open>flag\<close> or \<open>block\<close>, that word is the
    verdict and the other lines, joined, trimmed and cut to 200 characters, are the
    reason, whatever \<open>json.loads\<close> would do and whatever words come later.
  \<^enum> Otherwise, if \<open>json.loads\<close> decodes the text from the first opening brace to the
    last closing brace and the \<open>verdict\<close> field of the object (or, when that field is
    missing or false in Python's sense, as the empty string, \<open>null\<close>, \<open>false\<close> and \<open>0\<close>
    are, its \<open>result\<close> field), trimmed and lowercased, is one of the three words, that
    word is the verdict.
  \<^enum> Otherwise, when there is no such text between braces, or \<open>json.loads\<close> rejects it
    with a decode error, or the field is none of the three words, the verdict is
    \<open>block\<close> if the lowercased text contains "block", else \<open>flag\<close> if it contains
    "flag", else \<open>pass\<close>; so the third rule gives \<open>block\<close> only for a text that contains
    the word.
  Nothing is said here of a text on which \<open>json.loads\<close> raises another exception.
\<close>

theorem parse_verdict_precedence:
  assumes "split_nl (strip text) = l # rest"
  shows
    "(lower (strip l) \<in> set verdict_words
        \<longrightarrow> parse_verdict loads text
              = Inr (lower (strip l), take 200 (strip (join_nl rest))))
     \<and> (lower (strip l) \<notin> set verdict_words
          \<and> find_char (CHR 0x7B) (strip text) = Some start
          \<and> rfind_char (CHR 0x7D) (strip text) = Some k
          \<and> start \<le> k
          \<and> loads (slice (strip text) start (Suc k)) = Decoded obj
          \<and> lower (safe_str (py_or (py_or (py_get obj ''verdict'') (py_get obj ''result''))
                                      (PyStr []))) \<in> set verdict_words
        \<longrightarrow> (\<exists>r. parse_verdict loads text
                   = Inr (lower (safe_str (py_or (py_or (py_get obj ''verdict'')
                                                        (py_get obj ''result'')) (PyStr []))),
                          r)))
     \<and> (lower (strip l) \<notin> set verdict_words
          \<and> (\<forall>start k.
                 find_char (CHR 0x7B) (strip text) = Some start
                 \<and> rfind_char (CHR 0x7D) (strip text) = Some k
                 \<and> start \<le> k
                 \<longrightarrow> loads (slice (strip text) start (Suc k)) = DecodeError
                     \<or> (\<exists>obj. loads (slice (strip text) start (Suc k)) = Decoded obj
                          \<and> lower (safe_str (py_or (py_or (py_get obj ''verdict'')
                                                           (py_get obj ''result''))
                                                    (PyStr [])))
                              \<notin> set verdict_words))
        \<longrightarrow> (\<exists>r. parse_verdict loads text
                   = Inr (if contains (lower (strip text)) ''block'' then ''block''
                          else if contains (lower (strip text)) ''flag'' then ''flag''
                          else ''pass'', r))
            \<and> ((\<exists>r. parse_verdict loads text = Inr (''block'', r))
                 \<longrightarrow> contains (lower (strip text)) ''block''))"
proof (intro conjI impI)
  assume "lower (strip l) \<in> set verdict_words"
  with assms show "parse_verdict loads text
      = Inr (lower (strip l), take 200 (strip (join_nl rest)))"
    by (rule parse_verdict_first_line)
next
  assume a: "lower (strip l) \<notin> set verdict_words
          \<and> find_char (CHR 0x7B) (strip text) = Some start
          \<and> rfind_char (CHR 0x7D) (strip text) = Some k
          \<and> start \<le> k
          \<and> loads (slice (strip text) start (Suc k)) = Decoded obj
          \<and> lower (safe_str (py_or (py_or (py_get obj ''verdict'') (py_get obj ''result''))
                                      (PyStr []))) \<in> set verdict_words"
  then obtain r where "json_verdict loads (strip text) =
      Inr (Some (lower (safe_str (py_or (py_or (py_get obj ''verdict'')
                                               (py_get obj ''result'')) (PyStr []))), r))"
    using json_verdict_match [of "strip text" start k loads obj] by blast
  with assms a have "parse_verdict loads text
      = Inr (lower (safe_str (py_or (py_or (py_get obj ''verdict'')
                                           (py_get obj ''result'')) (PyStr []))), r)"
    using parse_verdict_json [of "text" l rest loads] by simp
  then show "\<exists>r. parse_verdict loads text
      = Inr (lower (safe_str (py_or (py_or (py_get obj ''verdict'')
                                           (py_get obj ''result'')) (PyStr []))), r)"
    by blast
next
  assume a: "lower (strip l) \<notin> set verdict_words
          \<and> (\<forall>start k.
                 find_char (CHR 0x7B) (strip text) = Some start
                 \<and> rfind_char (CHR 0x7D) (strip text) = Some k
                 \<and> start \<le> k
                 \<longrightarrow> loads (slice (strip text) start (Suc k)) = DecodeError
                     \<or> (\<exists>obj. loads (slice (strip text) start (Suc k)) = Decoded obj
                          \<and> lower (safe_str (py_or (py_or (py_get obj ''verdict'')
                                                           (py_get obj ''result''))
                                                    (PyStr [])))
                              \<notin> set verdict_words))"
  then have none: "json_verdict loads (strip text) = Inr None"
    using json_verdict_no_match [of "strip text" loads] by blast
  from a have nl: "lower (strip l) \<notin> set verdict_words"
    by blast
  show fb: "\<exists>r. parse_verdict loads text
                   = Inr (if contains (lower (strip text)) ''block'' then ''block''
                          else if contains (lower (strip text)) ''flag'' then ''flag''
                          else ''pass'', r)"
    using assms nl none by (rule parse_verdict_fallback)
  assume "\<exists>r. parse_verdict loads text = Inr (''block'', r)"
  with fb show "contains (lower (strip text)) ''block''"
    by (auto split: if_splits)
qed

theorem parse_verdict_precedence_witness:
  "parse_verdict reads_json_reply ''Block\<newline>no json here, flag''
     = Inr (''block'', ''no json here, flag'')
   \<and> (\<exists>r. parse_verdict reads_json_reply json_reply = Inr (''flag'', r))
   \<and> (\<exists>r. parse_verdict rejects ''fine, nothing to flag'' = Inr (''flag'', r))"
proof -
  have l1: "split_nl (strip ''Block\<newline>no json here, flag'')
      = ''Block'' # [''no json here, flag'']"
    by (simp add: string_eval)
  have w1: "lower (strip ''Block'') \<in> set verdict_words"
    by (simp add: string_eval)
  have "parse_verdict reads_json_reply ''Block\<newline>no json here, flag''
      = Inr (lower (strip ''Block''), take 200 (strip (join_nl [''no json here, flag''])))"
    using parse_verdict_precedence [OF l1, THEN conjunct1, rule_format, OF w1] .
  then have first: "parse_verdict reads_json_reply ''Block\<newline>no json here, flag''
     = Inr (''block'', ''no json here, flag'')"
    by (simp add: string_eval)
  have l2: "split_nl (strip json_reply) = json_reply # []"
    by (simp add: json_reply_def string_eval)
  let ?obj = "[''verdict'' \<mapsto> PyStr '' Flag '', ''reason'' \<mapsto> PyStr ''borderline'']"
  have field: "lower (safe_str (py_or (py_or (py_get ?obj ''verdict'')
                 (py_get ?obj ''result'')) (PyStr []))) = ''flag''"
    by (simp add: py_or_def py_get_def string_eval)
  have w2a: "lower (strip json_reply) \<notin> set verdict_words
          \<and> find_char (CHR 0x7B) (strip json_reply) = Some 8
          \<and> rfind_char (CHR 0x7D) (strip json_reply) = Some 52
          \<and> (8::nat) \<le> 52
          \<and> reads_json_reply (slice (strip json_reply) 8 (Suc 52)) = Decoded ?obj"
    by (simp add: json_reply_def reads_json_reply_def string_eval)
  have w2b: "lower (safe_str (py_or (py_or (py_get ?obj ''verdict'') (py_get ?obj ''result''))
                                      (PyStr []))) \<in> set verdict_words"
    using field by (simp add: verdict_words_def)
  from w2a w2b
  have w2: "lower (strip json_reply) \<notin> set verdict_words
          \<and> find_char (CHR 0x7B) (strip json_reply) = Some 8
          \<and> rfind_char (CHR 0x7D) (strip json_reply) = Some 52
          \<and> (8::nat) \<le> 52
          \<and> reads_json_reply (slice (strip json_reply) 8 (Suc 52)) = Decoded ?obj
          \<and> lower (safe_str (py_or (py_or (py_get ?obj ''verdict'') (py_get ?obj ''result''))
                                      (PyStr []))) \<in> set verdict_words"
    by blast
  have "\<exists>r. parse_verdict reads_json_reply json_reply
      = Inr (lower (safe_str (py_or (py_or (py_get ?obj ''verdict'') (py_get ?obj ''result''))
                                      (PyStr []))), r)"
    using parse_verdict_precedence
            [of json_reply _ _ reads_json_reply 8 52 ?obj, OF l2, THEN conjunct2,
             THEN conjunct1, THEN mp, OF w2] .
  then have second: "\<exists>r. parse_verdict reads_json_reply json_reply = Inr (''flag'', r)"
    unfolding field .
  have l3: "split_nl (strip ''fine, nothing to flag'') = ''fine, nothing to flag'' # []"
    by (simp add: string_eval)
  have w3: "lower (strip ''fine, nothing to flag'') \<notin> set verdict_words
          \<and> (\<forall>start k.
                 find_char (CHR 0x7B) (strip ''fine, nothing to flag'') = Some start
                 \<and> rfind_char (CHR 0x7D) (strip ''fine, nothing to flag'') = Some k
                 \<and> start \<le> k
                 \<longrightarrow> rejects (slice (strip ''fine, nothing to flag'') start (Suc k))
                       = DecodeError
                     \<or> (\<exists>obj. rejects (slice (strip ''fine, nothing to flag'') start (Suc k))
                               = Decoded obj
                          \<and> lower (safe_str (py_or (py_or (py_get obj ''verdict'')
                                                           (py_get obj ''result''))
                                                    (PyStr [])))
                              \<notin> set verdict_words))"
    by (simp add: rejects_def string_eval)
  have "\<exists>r. parse_verdict rejects ''fine, nothing to flag''
      = Inr (if contains (lower (strip ''fine, nothing to flag'')) ''block'' then ''block''
             else if contains (lower (strip ''fine, nothing to flag'')) ''flag'' then ''flag''
             else ''pass'', r)"
    using parse_verdict_precedence
            [OF l3, THEN conjunct2, THEN conjunct2, THEN mp, OF w3, THEN conjunct1] .
  then have third: "\<exists>r. parse_verdict rejects ''fine, nothing to flag'' = Inr (''flag'', r)"
    by (simp add: string_eval)
  from first second third show ?thesis
    by blast
qed

text \<open>
  C5 as it is stated fails on a text that starts with a line break. The first line of
  the text below is empty, the text holds no brace, and it contains "block": the third
  rule of the claim gives \<open>block\<close>. The code removes the leading line break first, finds
  \<open>flag\<close> on the first line of what remains, and returns \<open>flag\<close>.
\<close>

theorem parse_verdict_first_line_counterexample:
  "split_nl ''\<newline>flag\<newline>block'' = [[], ''flag'', ''block'']
   \<and> lower (strip []) \<notin> set verdict_words
   \<and> find_char (CHR 0x7B) ''\<newline>flag\<newline>block'' = None
   \<and> contains (lower ''\<newline>flag\<newline>block'') ''block''
   \<and> parse_verdict rejects ''\<newline>flag\<newline>block'' = Inr (''flag'', ''block'')"
  by (simp add: parse_verdict_def string_eval)

text \<open>
  The second rule of the claim asks for a field equal to one of the three words; the
  code trims and lowercases the field first. In \<open>json_reply\<close> the field is " Flag ":
  the code returns \<open>flag\<close> by the second rule, where the third rule would say \<open>block\<close>.
\<close>

lemma parse_verdict_json_field_example:
  "parse_verdict reads_json_reply json_reply = Inr (''flag'', ''borderline'')
   \<and> contains (lower json_reply) ''block''"
  by (simp add: parse_verdict_def json_verdict_def json_reply_def reads_json_reply_def
        py_or_def py_get_def string_eval)

section \<open>The format and PII guards never block\<close>

lemma call_ollama_guard_verdict:
  "verdict (call_ollama_guard classify loads guard_name prompt user_content mdl)
     \<in> set verdict_words"
proof (cases "classify (or_str (safe_str (PyStr mdl)) ''phi3'')
                (or_str (safe_str (PyStr prompt)) ''Classify as pass, flag, or block.'')
                (or_str (safe_str (PyStr user_content)) ''(no content)'')")
  case (Inl e)
  then show ?thesis
    by (simp add: call_ollama_guard_def DEFAULT_VERDICT_def verdict_words_def)
next
  case (Inr content)
  show ?thesis
  proof (cases "parse_verdict loads (safe_str (PyStr (or_empty content)))")
    case (Inl e)
    with Inr show ?thesis
      by (simp add: call_ollama_guard_def DEFAULT_VERDICT_def verdict_words_def)
  next
    case parsed: (Inr vr)
    obtain v r where "vr = (v, r)"
      by (cases vr) auto
    with Inr parsed show ?thesis
      by (simp add: call_ollama_guard_def DEFAULT_VERDICT_def verdict_words_def)
  qed
qed

lemma call_ollama_guard_answers:
  "verdict (call_ollama_guard (answers raw) loads guard_name prompt user_content mdl)
     = (case parse_verdict loads (strip raw) of Inl e \<Rightarrow> ''flag'' | Inr (v, r) \<Rightarrow> v)"
proof (cases "parse_verdict loads (strip raw)")
  case (Inl e)
  then show ?thesis
    by (simp add: call_ollama_guard_def answers_def or_empty_def DEFAULT_VERDICT_def)
next
  case (Inr vr)
  obtain v r where vr: "vr = (v, r)"
    by (cases vr) auto
  with Inr parse_verdict_range [of loads "strip raw" v r] have "v \<in> set verdict_words"
    by simp
  with Inr vr show ?thesis
    by (simp add: call_ollama_guard_def answers_def or_empty_def)
qed

lemma format_guard_verdict:
  "verdict (format_guard classify loads user_message model_response mdl) =
     (if verdict (call_ollama_guard classify loads ''format'' FORMAT_SYSTEM
                    (''Model response to check:'' @ [CHR 0x0A]
                       @ or_str (strip model_response) ''(empty)'') mdl) = ''block''
      then ''flag''
      else verdict (call_ollama_guard classify loads ''format'' FORMAT_SYSTEM
                    (''Model response to check:'' @ [CHR 0x0A]
                       @ or_str (strip model_response) ''(empty)'') mdl))"
  by (simp add: format_guard_def Let_def)

lemma pii_guard_verdict:
  "verdict (pii_guard classify loads user_message model_response mdl) =
     (if verdict (call_ollama_guard classify loads ''pii'' PII_SYSTEM
                    (''Model response to check:'' @ [CHR 0x0A]
                       @ or_str (strip model_response) ''(empty)'') mdl) = ''block''
      then ''flag''
      else verdict (call_ollama_guard classify loads ''pii'' PII_SYSTEM
                    (''Model response to check:'' @ [CHR 0x0A]
                       @ or_str (strip model_response) ''(empty)'') mdl))"
  by (simp add: pii_guard_def Let_def)

lemma format_guard_not_block:
  "verdict (format_guard classify loads user_message model_response mdl) \<noteq> ''block''"
  by (simp add: format_guard_verdict)

lemma pii_guard_not_block:
  "verdict (pii_guard classify loads user_message model_response mdl) \<noteq> ''block''"
  by (simp add: pii_guard_verdict)

lemma enabled_tasks_subset:
  "(nm, fn, mdl) \<in> set (enabled_tasks cfg guard_fns) \<Longrightarrow> (nm, fn) \<in> set guard_fns"
  by (induction cfg guard_fns rule: enabled_tasks.induct) (auto split: if_splits)

lemma slot_result_returning_guard:
  assumes "verdict (g um mr mdl) \<noteq> ''block''" and "nm \<noteq> ''safety''"
  shows "verdict (slot_result policy nm mdl
                    (future_result finished (run_one um mr nm (as_guard_fn g) mdl)))
           \<noteq> ''block''"
  using assms
  by (simp add: slot_result_def future_result_def run_one_def as_guard_fn_def
        SAFETY_GUARD_NAME_def)

lemma run_guards_format_pii:
  "\<not> any_block (run_guards cfg in_time user_message model_response
       [(''format'', as_guard_fn (format_guard classify loads)),
        (''pii'', as_guard_fn (pii_guard classify loads))])"
proof -
  let ?fns = "[(''format'', as_guard_fn (format_guard classify loads)),
               (''pii'', as_guard_fn (pii_guard classify loads))]"
  have "verdict r \<noteq> ''block''"
    if "r \<in> set (run_guards cfg in_time user_message model_response ?fns)" for r
  proof -
    from that obtain nm fn mdl i where
      t: "((nm, fn, mdl), i) \<in> set (zip (enabled_tasks cfg ?fns)
                                      [0 ..< length (enabled_tasks cfg ?fns)])"
      and r: "r = slot_result (get_on_safety_timeout cfg) nm mdl
                   (future_result (in_time i)
                      (run_one (strip user_message) (strip model_response) nm fn mdl))"
      by (auto simp: run_guards_eq)
    from t have "(nm, fn, mdl) \<in> set (enabled_tasks cfg ?fns)"
      by (rule set_zip_leftD)
    then have "(nm, fn) \<in> set ?fns"
      by (rule enabled_tasks_subset)
    then consider "nm = ''format''" "fn = as_guard_fn (format_guard classify loads)"
      | "nm = ''pii''" "fn = as_guard_fn (pii_guard classify loads)"
      by auto
    then show ?thesis
    proof cases
      case 1
      with r show ?thesis
        using slot_result_returning_guard
                [of "format_guard classify loads" "strip user_message"
                    "strip model_response" mdl "''format''"]
        by (simp add: format_guard_not_block)
    next
      case 2
      with r show ?thesis
        using slot_result_returning_guard
                [of "pii_guard classify loads" "strip user_message"
                    "strip model_response" mdl "''pii''"]
        by (simp add: pii_guard_not_block)
    qed
  qed
  then show ?thesis
    by (auto simp: any_block_iff)
qed

text \<open>
  C3. For every user message, model response, model identifier and classifier
  behaviour, \<open>format_guard\<close> and \<open>pii_guard\<close> return a verdict other than \<open>block\<close>. When
  the classifier answers with a text \<open>raw\<close>, their verdict is \<open>flag\<close> if the parser
  reads \<open>block\<close> from it or raises, and the parser's verdict otherwise. A list of results of only
  these two guards never blocks, and neither does a run of the runner that dispatches
  only these two guards, whatever times out.
\<close>

theorem format_and_pii_never_block:
  "verdict (format_guard classify loads user_message model_response mdl) \<noteq> ''block''
   \<and> verdict (pii_guard classify loads user_message model_response mdl) \<noteq> ''block''
   \<and> verdict (format_guard (answers raw) loads user_message model_response mdl)
       = (case parse_verdict loads (strip raw) of
            Inl e \<Rightarrow> ''flag''
          | Inr (v, r) \<Rightarrow> if v = ''block'' then ''flag'' else v)
   \<and> verdict (pii_guard (answers raw) loads user_message model_response mdl)
       = (case parse_verdict loads (strip raw) of
            Inl e \<Rightarrow> ''flag''
          | Inr (v, r) \<Rightarrow> if v = ''block'' then ''flag'' else v)
   \<and> ((\<forall>r \<in> set rs. \<exists>um mr m. r = format_guard classify loads um mr m
                                    \<or> r = pii_guard classify loads um mr m)
        \<longrightarrow> \<not> any_block rs \<and> get_blocking_guard rs = None)
   \<and> \<not> any_block (run_guards cfg in_time user_message model_response
          [(''format'', as_guard_fn (format_guard classify loads)),
           (''pii'', as_guard_fn (pii_guard classify loads))])"
proof (intro conjI impI)
  show "verdict (format_guard classify loads user_message model_response mdl) \<noteq> ''block''"
    by (rule format_guard_not_block)
  show "verdict (pii_guard classify loads user_message model_response mdl) \<noteq> ''block''"
    by (rule pii_guard_not_block)
  show "verdict (format_guard (answers raw) loads user_message model_response mdl)
       = (case parse_verdict loads (strip raw) of
            Inl e \<Rightarrow> ''flag''
          | Inr (v, r) \<Rightarrow> if v = ''block'' then ''flag'' else v)"
    by (simp add: format_guard_verdict call_ollama_guard_answers
          split: sum.split prod.split)
  show "verdict (pii_guard (answers raw) loads user_message model_response mdl)
       = (case parse_verdict loads (strip raw) of
            Inl e \<Rightarrow> ''flag''
          | Inr (v, r) \<Rightarrow> if v = ''block'' then ''flag'' else v)"
    by (simp add: pii_guard_verdict call_ollama_guard_answers
          split: sum.split prod.split)
  show "\<not> any_block (run_guards cfg in_time user_message model_response
          [(''format'', as_guard_fn (format_guard classify loads)),
           (''pii'', as_guard_fn (pii_guard classify loads))])"
    by (rule run_guards_format_pii)
next
  assume only: "\<forall>r \<in> set rs. \<exists>um mr m. r = format_guard classify loads um mr m
                                    \<or> r = pii_guard classify loads um mr m"
  have quiet: "\<forall>r \<in> set rs. verdict r \<noteq> ''block''"
  proof
    fix r assume "r \<in> set rs"
    with only obtain um mr m where
      "r = format_guard classify loads um mr m \<or> r = pii_guard classify loads um mr m"
      by blast
    then show "verdict r \<noteq> ''block''"
      using format_guard_not_block [of classify loads um mr m]
            pii_guard_not_block [of classify loads um mr m]
      by auto
  qed
  then show "\<not> any_block rs"
    by (simp add: any_block_iff)
  from quiet show "get_blocking_guard rs = None"
    by (simp add: get_blocking_guard_None)
qed

theorem format_and_pii_never_block_witness:
  "verdict (format_guard (answers ''block\<newline>reason'') rejects ''Hello'' ''Hi there'' ''phi3'')
     = ''flag''
   \<and> verdict (pii_guard (answers ''block\<newline>reason'') rejects ''Hello'' ''Hi there'' ''phi3'')
     = ''flag''
   \<and> \<not> any_block
        [format_guard (answers ''block\<newline>reason'') rejects ''Hello'' ''Hi there'' ''phi3'',
         pii_guard (answers ''block\<newline>reason'') rejects ''Hello'' ''Hi there'' ''phi3'']"
proof -
  note T = format_and_pii_never_block
    [of "answers ''block\<newline>reason''" rejects "''Hello''" "''Hi there''" "''phi3''"
        "''block\<newline>reason''"
        "[format_guard (answers ''block\<newline>reason'') rejects ''Hello'' ''Hi there'' ''phi3'',
          pii_guard (answers ''block\<newline>reason'') rejects ''Hello'' ''Hi there'' ''phi3'']"]
  have parsed: "parse_verdict rejects (strip ''block\<newline>reason'') = Inr (''block'', ''reason'')"
    by (simp add: parse_verdict_def string_eval)
  have only: "\<forall>r \<in> set
        [format_guard (answers ''block\<newline>reason'') rejects ''Hello'' ''Hi there'' ''phi3'',
         pii_guard (answers ''block\<newline>reason'') rejects ''Hello'' ''Hi there'' ''phi3''].
      \<exists>um mr m. r = format_guard (answers ''block\<newline>reason'') rejects um mr m
               \<or> r = pii_guard (answers ''block\<newline>reason'') rejects um mr m"
    by auto
  from T [THEN conjunct2, THEN conjunct2, THEN conjunct1]
       T [THEN conjunct2, THEN conjunct2, THEN conjunct2, THEN conjunct1]
       T [THEN conjunct2, THEN conjunct2, THEN conjunct2, THEN conjunct2, THEN conjunct1,
          THEN mp, OF only]
  show ?thesis
    unfolding parsed by simp
qed

section \<open>The length of a reason\<close>

lemma call_ollama_guard_reason:
  assumes "classify (or_str (strip mdl) ''phi3'')
             (or_str (strip prompt) ''Classify as pass, flag, or block.'')
             (or_str (strip user_content) ''(no content)'') = Inr content"
  shows "length (reason (call_ollama_guard classify loads guard_name prompt user_content mdl))
           \<le> 200"
proof (cases "parse_verdict loads (strip (or_empty content))")
  case (Inl e)
  with assms show ?thesis
    by (simp add: call_ollama_guard_def or_str_def DEFAULT_REASON_def)
next
  case (Inr vr)
  obtain v r where vr: "vr = (v, r)"
    by (cases vr) auto
  with Inr parse_verdict_range [of loads "strip (or_empty content)" v r]
  have "v \<in> set verdict_words" and "length r \<le> 200"
    by simp_all
  with assms Inr vr show ?thesis
    by (simp add: call_ollama_guard_def or_str_def)
qed

lemma call_ollama_guard_reason_replies:
  assumes "\<forall>m p u. \<exists>content. classify m p u = Inr content"
  shows "length (reason (call_ollama_guard classify loads guard_name prompt user_content mdl))
           \<le> 200"
proof -
  from assms obtain content where
    "classify (or_str (strip mdl) ''phi3'')
       (or_str (strip prompt) ''Classify as pass, flag, or block.'')
       (or_str (strip user_content) ''(no content)'') = Inr content"
    by blast
  then show ?thesis
    by (rule call_ollama_guard_reason)
qed

lemma normalize_guard_reason_length: "length (normalize_guard_reason rsn) \<le> 120"
  by (simp add: normalize_guard_reason_def Let_def)

lemma guard_result_out_reason: "length (out_reason (guard_result_out r)) \<le> 120"
  by (simp add: guard_result_out_def Let_def normalize_guard_reason_length)

text \<open>
  C8, as amended. A reason that comes from the parser has at most 200 characters, and so
  has the reason of every result a guard builds from a reply of its classifier; the two
  reasons the runner writes for a timeout are shorter than 200 characters. The reason
  of every entry of the API output has at most 120 characters, whatever the reason of
  the guard result was. (A result built from an exception of a check function or of
  the classifier call carries the whole text of the exception; the claim's bound of 200
  does not hold for it.)
\<close>

theorem reason_lengths:
  "(\<forall>v rsn. parse_verdict loads text = Inr (v, rsn) \<longrightarrow> length rsn \<le> 200)
   \<and> ((\<forall>m p u. \<exists>content. classify m p u = Inr content)
        \<longrightarrow> length (reason (call_ollama_guard classify loads guard_name prompt
                                user_content mdl)) \<le> 200
            \<and> length (reason (safety_guard classify loads user_message model_response mdl))
                \<le> 200
            \<and> length (reason (topic_guard classify loads user_message model_response mdl))
                \<le> 200
            \<and> length (reason (format_guard classify loads user_message model_response mdl))
                \<le> 200
            \<and> length (reason (pii_guard classify loads user_message model_response mdl))
                \<le> 200)
   \<and> length (reason (slot_result policy nm mdl' TimedOut)) \<le> 200
   \<and> length (out_reason (guard_result_out r)) \<le> 120
   \<and> (\<forall>out \<in> set (guard_results_out rs). length (out_reason out) \<le> 120)"
proof (intro conjI impI ballI allI)
  fix v rsn
  assume "parse_verdict loads text = Inr (v, rsn)"
  then show "length rsn \<le> 200"
    using parse_verdict_range [of loads "text" v rsn] by simp
next
  show "length (reason (slot_result policy nm mdl' TimedOut)) \<le> 200"
    by (simp add: slot_result_def)
  show "length (out_reason (guard_result_out r)) \<le> 120"
    by (rule guard_result_out_reason)
next
  fix out
  assume "out \<in> set (guard_results_out rs)"
  then show "length (out_reason out) \<le> 120"
    by (auto simp: guard_results_out_def guard_result_out_reason)
next
  assume replies: "\<forall>m p u. \<exists>content. classify m p u = Inr content"
  note bound = call_ollama_guard_reason_replies [OF replies]
  show "length (reason (call_ollama_guard classify loads guard_name prompt
                                user_content mdl)) \<le> 200"
    by (rule bound)
  show "length (reason (safety_guard classify loads user_message model_response mdl))
                \<le> 200"
    by (simp add: safety_guard_def Let_def bound)
  show "length (reason (topic_guard classify loads user_message model_response mdl))
                \<le> 200"
    by (simp add: topic_guard_def Let_def bound)
  show "length (reason (format_guard classify loads user_message model_response mdl))
                \<le> 200"
    using bound [of loads "''format''" FORMAT_SYSTEM
                   "''Model response to check:'' @ [CHR 0x0A]
                      @ or_str (strip model_response) ''(empty)''" mdl]
    by (simp add: format_guard_def Let_def or_str_def)
  show "length (reason (pii_guard classify loads user_message model_response mdl))
                \<le> 200"
    using bound [of loads "''pii''" PII_SYSTEM
                   "''Model response to check:'' @ [CHR 0x0A]
                      @ or_str (strip model_response) ''(empty)''" mdl]
    by (simp add: pii_guard_def Let_def or_str_def)
qed

theorem reason_lengths_witness:
  "length (reason (safety_guard (answers (''flag\<newline>'' @ replicate 300 (CHR ''x''))) rejects
             ''Hello'' ''Hi there'' ''phi3'')) \<le> 200
   \<and> length (out_reason (guard_result_out
        \<lparr>name = ''pii'', verdict = ''flag'',
         reason = ''Ollama error: '' @ replicate 200 (CHR ''x''), model = ''phi3''\<rparr>)) \<le> 120"
proof -
  have replies: "\<forall>m p u. \<exists>content.
      answers (''flag\<newline>'' @ replicate 300 (CHR ''x'')) m p u = Inr content"
    by (simp add: answers_def)
  note T = reason_lengths
    [of rejects "[]" "answers (''flag\<newline>'' @ replicate 300 (CHR ''x''))" "[]" "[]" "[]"
        "''phi3''" "''Hello''" "''Hi there''" "[]" "[]" "[]"
        "\<lparr>name = ''pii'', verdict = ''flag'',
          reason = ''Ollama error: '' @ replicate 200 (CHR ''x''), model = ''phi3''\<rparr>" "[]"]
  from T [THEN conjunct2, THEN conjunct1, THEN mp, OF replies]
       T [THEN conjunct2, THEN conjunct2, THEN conjunct2, THEN conjunct1]
  show ?thesis
    by blast
qed

text \<open>
  C8 as it is stated fails for a result built from an exception. When the classifier
  call of the PII guard raises an exception whose text has 200 characters, the guard
  returns a result whose reason has 214 characters, and \<open>run_one\<close> gives a reason of
  213 characters to a check function that raises the same exception.
\<close>

theorem error_reason_length_counterexample:
  "length (reason (pii_guard (unreachable (replicate 200 (CHR ''x''))) rejects
             ''Hello'' ''Hi there'' ''phi3'')) = 214
   \<and> \<not> length (reason (pii_guard (unreachable (replicate 200 (CHR ''x''))) rejects
             ''Hello'' ''Hi there'' ''phi3'')) \<le> 200
   \<and> run_one ''Hello'' ''Hi there'' ''pii'' (raises (replicate 200 (CHR ''x''))) ''phi3''
       = Inr \<lparr>name = ''pii'', verdict = ''flag'',
              reason = ''Guard error: '' @ replicate 200 (CHR ''x''), model = ''phi3''\<rparr>
   \<and> length (''Guard error: '' @ replicate 200 (CHR ''x'')) = 213"
  by (simp add: pii_guard_def call_ollama_guard_def unreachable_def DEFAULT_VERDICT_def
        run_one_def raises_def Let_def)

section \<open>The session store keeps the last twenty messages\<close>

lemma append_exchange_same:
  "append_exchange store sid u a sid =
     drop (length (store sid @ exchange u a) - 20) (store sid @ exchange u a)"
  by (simp add: append_exchange_def exchange_def MAX_HISTORY_MESSAGES_def Let_def)

lemma append_exchange_other:
  "session \<noteq> sid \<Longrightarrow> append_exchange store sid u a session = store session"
  by (simp add: append_exchange_def Let_def)

lemma drop_drop_append:
  "drop (length (drop (length xs - n) xs @ ys) - n) (drop (length xs - n) xs @ ys)
     = drop (length (xs @ ys) - n) (xs @ ys)"
proof (cases "length xs \<le> n")
  case True
  then show ?thesis by simp
next
  case False
  then have "length (drop (length xs - n) xs @ ys) - n = length ys"
    by simp
  moreover from False have "length (xs @ ys) - n = (length xs - n) + length ys"
    by simp
  ultimately show ?thesis
    by (simp add: drop_append add.commute)
qed

lemma append_exchanges_history:
  "append_exchanges store calls session =
     (if appended calls session = [] then store session
      else drop (length (store session @ appended calls session) - 20)
             (store session @ appended calls session))"
proof (induction calls arbitrary: store)
  case Nil
  show ?case by (simp add: append_exchanges_def appended_def)
next
  case (Cons c calls)
  obtain sid u a where c: "c = (sid, u, a)"
    by (cases c) auto
  have step: "append_exchanges store (c # calls) session
      = append_exchanges (append_exchange store sid u a) calls session"
    by (simp add: append_exchanges_def c)
  show ?case
  proof (cases "sid = session")
    case False
    then have "appended (c # calls) session = appended calls session"
      by (simp add: appended_def c)
    with False show ?thesis
      by (simp add: step Cons.IH append_exchange_other)
  next
    case True
    have app: "appended (c # calls) session = exchange u a @ appended calls session"
      using True by (simp add: appended_def c)
    have ne: "exchange u a \<noteq> []"
      by (simp add: exchange_def)
    let ?kept = "drop (length (store session @ exchange u a) - 20)
                   (store session @ exchange u a)"
    have kept: "append_exchange store sid u a session = ?kept"
      using True by (simp add: append_exchange_same)
    show ?thesis
    proof (cases "appended calls session = []")
      case True
      with ne show ?thesis
        by (simp add: step Cons.IH app kept)
    next
      case False
      have "append_exchanges store (c # calls) session
          = drop (length (?kept @ appended calls session) - 20)
              (?kept @ appended calls session)"
        using False by (simp add: step Cons.IH kept)
      also have "\<dots> = drop (length ((store session @ exchange u a)
                                      @ appended calls session) - 20)
                          ((store session @ exchange u a) @ appended calls session)"
        by (rule drop_drop_append)
      finally show ?thesis
        using ne by (simp add: app)
    qed
  qed
qed

text \<open>
  C9. After any sequence of \<open>append_exchange\<close> calls on the empty store, \<open>get_history\<close>
  of a session returns the last 20 of the messages appended to that session, in the
  order in which they were appended (all of them while there are at most 20): never
  more than 20 messages, the oldest dropped first.
\<close>

theorem history_is_last_twenty:
  "get_history (append_exchanges no_sessions calls) session
     = drop (length (appended calls session) - 20) (appended calls session)
   \<and> length (get_history (append_exchanges no_sessions calls) session) \<le> 20"
proof -
  have "get_history (append_exchanges no_sessions calls) session
     = drop (length (appended calls session) - 20) (appended calls session)"
    by (simp add: get_history_def append_exchanges_history no_sessions_def)
  then show ?thesis by simp
qed

lemma appended_eleven:
  "appended eleven_exchanges ''s1'' =
     exchange ''q1'' ''a1'' @ exchange ''q2'' ''a2'' @ exchange ''q3'' ''a3''
     @ exchange ''q4'' ''a4'' @ exchange ''q5'' ''a5'' @ exchange ''q6'' ''a6''
     @ exchange ''q7'' ''a7'' @ exchange ''q8'' ''a8'' @ exchange ''q9'' ''a9''
     @ exchange ''q10'' ''a10'' @ exchange ''q11'' ''a11''"
  by (simp add: appended_def eleven_exchanges_def)

theorem history_is_last_twenty_witness:
  "get_history (append_exchanges no_sessions eleven_exchanges) ''s1''
     = exchange ''q2'' ''a2'' @ exchange ''q3'' ''a3''
       @ exchange ''q4'' ''a4'' @ exchange ''q5'' ''a5'' @ exchange ''q6'' ''a6''
       @ exchange ''q7'' ''a7'' @ exchange ''q8'' ''a8'' @ exchange ''q9'' ''a9''
       @ exchange ''q10'' ''a10'' @ exchange ''q11'' ''a11''
   \<and> length (get_history (append_exchanges no_sessions eleven_exchanges) ''s1'') = 20
   \<and> length (appended eleven_exchanges ''s1'') = 22"
proof -
  have two: "length (exchange u a) = 2" for u a
    by (simp add: exchange_def)
  have len: "length (appended eleven_exchanges ''s1'') = 22"
    by (simp add: appended_eleven two)
  have first: "drop 2 (exchange u a @ more) = more" for u a more
    by (simp add: exchange_def)
  from history_is_last_twenty [of eleven_exchanges "''s1''"]
  have h: "get_history (append_exchanges no_sessions eleven_exchanges) ''s1''
      = drop 2 (appended eleven_exchanges ''s1'')"
    by (simp add: len)
  then have "get_history (append_exchanges no_sessions eleven_exchanges) ''s1''
     = exchange ''q2'' ''a2'' @ exchange ''q3'' ''a3''
       @ exchange ''q4'' ''a4'' @ exchange ''q5'' ''a5'' @ exchange ''q6'' ''a6''
       @ exchange ''q7'' ''a7'' @ exchange ''q8'' ''a8'' @ exchange ''q9'' ''a9''
       @ exchange ''q10'' ''a10'' @ exchange ''q11'' ''a11''"
    by (simp only: appended_eleven first)
  moreover from h len
  have "length (get_history (append_exchanges no_sessions eleven_exchanges) ''s1'') = 20"
    by simp
  ultimately show ?thesis
    using len by blast
qed

section \<open>A blocked chat request leaves the history alone\<close>

text \<open>
  C10. When \<open>chat\<close> answers with a blocked response, the store it returns is the store
  it was given, so \<open>get_history\<close> of every session is what it was before the request;
  the same holds when it raises an \<open>HTTPException\<close>. A response that is not blocked
  comes with exactly one \<open>append_exchange\<close>, of the trimmed message and of the response
  text, to the session of the response. When the guards were not skipped, the response
  is blocked exactly when the guard results it reports contain a block verdict.
\<close>

theorem blocked_chat_keeps_history:
  assumes "chat cfg env uuids completion classify loads in_time store req = (res, store')"
  shows
    "((\<exists>resp. res = Inr resp \<and> blocked resp)
        \<longrightarrow> store' = store \<and> (\<forall>sid. get_history store' sid = get_history store sid))
     \<and> ((\<exists>e. res = Inl e) \<longrightarrow> store' = store)
     \<and> (\<forall>resp. res = Inr resp \<and> \<not> blocked resp
          \<longrightarrow> store' = append_exchange store (response_session_id resp)
                        (strip (message req)) (response resp))
     \<and> (\<forall>resp. res = Inr resp \<and> \<not> skip_guards req
          \<longrightarrow> (\<exists>raw. guard_results resp
                        = guard_results_out (run_guards cfg in_time (strip (message req)) raw
                                               (GUARD_FNS classify loads))
                      \<and> blocked resp
                        = any_block (run_guards cfg in_time (strip (message req)) raw
                                       (GUARD_FNS classify loads))))"
proof -
  let ?msg = "strip (message req)"
  let ?sid = "or_str (strip (or_str (or_empty (session_id req)) (fst uuids))) (snd uuids)"
  let ?hist = "case history req of Some h \<Rightarrow> h | None \<Rightarrow> get_history store ?sid"
  let ?sys = "or_str (strip (or_str (or_str (or_empty (system_prompt req))
                                            GROQ_DEFAULT_SYSTEM) []))
                     GROQ_DEFAULT_SYSTEM"
  show ?thesis
  proof (cases "?msg = [] \<or> length ?msg > MAX_MESSAGE_LENGTH")
    case True
    have "store' = store \<and> (\<exists>e. res = Inl e)"
    proof (cases "?msg = []")
      case True
      with assms show ?thesis
        by (auto simp: chat_def Let_def)
    next
      case False
      with True have "length ?msg > MAX_MESSAGE_LENGTH"
        by simp
      with False assms show ?thesis
        by (auto simp: chat_def Let_def)
    qed
    then show ?thesis by auto
  next
    case False
    then have valid: "?msg \<noteq> []" "\<not> length ?msg > MAX_MESSAGE_LENGTH"
      by simp_all
    show ?thesis
    proof (cases "completion ?msg ?sys ?hist")
      case (Inl e)
      with assms valid have "store' = store \<and> (\<exists>e. res = Inl e)"
        by (auto simp: chat_def Let_def split: if_splits)
      then show ?thesis by auto
    next
      case (Inr raw0)
      let ?raw = "normalize_response raw0"
      let ?results = "run_guards cfg in_time ?msg ?raw (GUARD_FNS classify loads)"
      show ?thesis
      proof (cases "skip_guards req")
        case True
        with assms valid Inr
        have "res = Inr \<lparr>response = ?raw, blocked = False, guard_results = [],
                         response_session_id = ?sid,
                         primary_model = get_groq_model env cfg\<rparr>
              \<and> store' = append_exchange store ?sid ?msg ?raw"
          by (auto simp: chat_def Let_def)
        with True show ?thesis by auto
      next
        case False
        note guarded = False
        show ?thesis
        proof (cases "any_block ?results")
          case True
          with assms valid Inr guarded
          have "store' = store
                \<and> (\<exists>text. res = Inr \<lparr>response = text, blocked = True,
                         guard_results = guard_results_out ?results,
                         response_session_id = ?sid,
                         primary_model = get_groq_model env cfg\<rparr>)"
            by (auto simp: chat_def Let_def)
          with True show ?thesis by auto
        next
          case False
          with assms valid Inr guarded
          have "res = Inr \<lparr>response = ?raw, blocked = False,
                         guard_results = guard_results_out ?results,
                         response_session_id = ?sid,
                         primary_model = get_groq_model env cfg\<rparr>
              \<and> store' = append_exchange store ?sid ?msg ?raw"
            by (auto simp: chat_def Let_def)
          with False show ?thesis by auto
        qed
      qed
    qed
  qed
qed

lemma example_guard_tasks:
  "enabled_tasks (example_config policy) (GUARD_FNS classify loads) =
     [(''safety'', as_guard_fn (safety_guard classify loads), ''phi3''),
      (''topic'', as_guard_fn (topic_guard classify loads), ''llama3.2''),
      (''pii'', as_guard_fn (pii_guard classify loads), ''phi3'')]"
  by (simp add: example_config_def GUARD_FNS_def is_guard_enabled_def get_guard_model_def
        string_eval)

lemma example_safety_blocks:
  "any_block (run_guards (example_config policy) in_time_always um mr
                (GUARD_FNS (answers ''block\<newline>unsafe'') rejects))"
proof -
  let ?fns = "GUARD_FNS (answers ''block\<newline>unsafe'') rejects"
  let ?results = "run_guards (example_config policy) in_time_always um mr ?fns"
  have i: "0 < length (enabled_tasks (example_config policy) ?fns)"
    by (simp add: example_guard_tasks)
  have t: "enabled_tasks (example_config policy) ?fns ! 0 =
      (''safety'', as_guard_fn (safety_guard (answers ''block\<newline>unsafe'') rejects), ''phi3'')"
    by (simp add: example_guard_tasks)
  have parsed: "parse_verdict rejects (strip ''block\<newline>unsafe'') = Inr (''block'', ''unsafe'')"
    by (simp add: parse_verdict_def string_eval)
  have "verdict (?results ! 0) = ''block''"
    unfolding run_guards_nth [OF i t]
    by (simp add: slot_result_def future_result_def run_one_def as_guard_fn_def
          in_time_always_def safety_guard_def call_ollama_guard_answers parsed)
  moreover have "?results ! 0 \<in> set ?results"
    using i by (simp add: run_guards_length)
  ultimately show ?thesis
    unfolding any_block_iff by blast
qed

theorem blocked_chat_keeps_history_witness:
  "(\<exists>resp. fst (chat (example_config ''flag'') example_environ (''u1'', ''u2'')
                  (completes ''Hi there'') (answers ''block\<newline>unsafe'') rejects
                  in_time_always example_store example_request) = Inr resp
           \<and> blocked resp)
   \<and> snd (chat (example_config ''flag'') example_environ (''u1'', ''u2'')
             (completes ''Hi there'') (answers ''block\<newline>unsafe'') rejects
             in_time_always example_store example_request) = example_store
   \<and> get_history
        (snd (chat (example_config ''flag'') example_environ (''u1'', ''u2'')
                (completes ''Hi there'') (answers ''block\<newline>unsafe'') rejects
                in_time_always example_store example_request)) ''s1''
       = exchange ''q1'' ''a1''"
proof -
  let ?c = "chat (example_config ''flag'') example_environ (''u1'', ''u2'')
              (completes ''Hi there'') (answers ''block\<newline>unsafe'') rejects
              in_time_always example_store example_request"
  have run: "?c = (fst ?c, snd ?c)"
    by simp
  have msg: "strip ''Hello'' = ''Hello''"
    by (simp add: string_eval)
  have is_blocked: "\<exists>resp. fst ?c = Inr resp \<and> blocked resp"
    by (simp add: chat_def Let_def msg MAX_MESSAGE_LENGTH_def completes_def
          example_safety_blocks example_request_def)
  have before: "get_history example_store ''s1'' = exchange ''q1'' ''a1''"
    by (simp add: get_history_def example_store_def append_exchanges_def
          append_exchange_def exchange_def no_sessions_def MAX_HISTORY_MESSAGES_def)
  from blocked_chat_keeps_history [OF run, THEN conjunct1, THEN mp, OF is_blocked]
  have "snd ?c = example_store
      \<and> (\<forall>sid. get_history (snd ?c) sid = get_history example_store sid)" .
  with before is_blocked show ?thesis
    by simp
qed

end
